theory Spec2Isabelle
  imports Main "HOL-Library.Word"
begin

unbundle bit_operations_syntax

section \<open>Kaspeak SDK: payload codec, dedup set, ingestion and decode pipeline\<close>

text \<open>
  A shallow embedding of the parts of the Kaspeak SDK that its specification makes
  checkable statements about. Byte arrays (\<open>Uint8Array\<close>) are lists of 8-bit words,
  JavaScript strings of hexadecimal digits are \<open>string\<close>s, a thrown exception is the
  \<open>Inl\<close> branch of a sum, and mutable objects are records passed in and returned.
\<close>

type_synonym byte = "8 word"

datatype error = Error string | RangeError string | SyntaxError string | TypeError string

subsection \<open>\<open>utils/limited-hash-set.ts\<close>\<close>

text \<open>
  \<open>LimitedHashSet\<close> keeps a FIFO \<open>queue\<close> (a JavaScript array) beside a native
  \<open>Set\<close>. The field \<open>set\<close> of the source is called \<open>set'\<close> here.
\<close>

record 'a LimitedHashSet =
  queue :: "'a list"
  set' :: "'a set"
  capacity :: nat

definition new_LimitedHashSet :: "nat \<Rightarrow> error + 'a LimitedHashSet" where
  "new_LimitedHashSet cap =
     (if cap < 1 then Inl (RangeError ''capacity must be positive'')
      else Inr \<lparr>queue = [], set' = {}, capacity = cap\<rparr>)"

text \<open>
  \<open>tryAdd\<close> returns its boolean together with the updated object. \<open>queue.shift()\<close>
  on an empty array yields \<open>undefined\<close> and removes nothing, which is the \<open>[]\<close> case.
\<close>

definition tryAdd :: "'a \<Rightarrow> 'a LimitedHashSet \<Rightarrow> bool \<times> 'a LimitedHashSet" where
  "tryAdd v s =
     (if v \<in> set' s then (False, s)
      else
        let s1 = (if length (queue s) = capacity s
                  then (case queue s of
                          [] \<Rightarrow> s
                        | oldest # rest \<Rightarrow> s\<lparr>queue := rest, set' := set' s - {oldest}\<rparr>)
                  else s)
        in (True, s1\<lparr>queue := queue s1 @ [v], set' := insert v (set' s1)\<rparr>))"

definition has :: "'a \<Rightarrow> 'a LimitedHashSet \<Rightarrow> bool" where
  "has v s \<longleftrightarrow> v \<in> set' s"

definition size' :: "'a LimitedHashSet \<Rightarrow> nat" where
  "size' s = length (queue s)"

text \<open>Feeding a stream of values through \<open>tryAdd\<close>, one after the other.\<close>

definition addAll :: "'a list \<Rightarrow> 'a LimitedHashSet \<Rightarrow> 'a LimitedHashSet" where
  "addAll vs s = fold (\<lambda>v t. snd (tryAdd v t)) vs s"

text \<open>\<open>Kaspeak.knownTxIds = new LimitedHashSet<string>(5_000)\<close>, as constructed.\<close>

definition initial_knownTxIds :: "string LimitedHashSet" where
  "initial_knownTxIds = \<lparr>queue = [], set' = {}, capacity = 5000\<rparr>"

text \<open>The representation invariant of the two fields.\<close>

definition lhs_inv :: "'a LimitedHashSet \<Rightarrow> bool" where
  "lhs_inv s \<longleftrightarrow>
     set' s = set (queue s) \<and> distinct (queue s) \<and>
     length (queue s) \<le> capacity s \<and> 1 \<le> capacity s"

subsection \<open>\<open>crypto/utils.ts\<close>: hexadecimal conversions\<close>

text \<open>
  \<open>toString16 n\<close> is \<open>n.toString(16)\<close> for a non-negative integer (a \<open>number\<close> or a
  \<open>bigint\<close>): lowercase digits, most significant first, no leading zero.
\<close>

definition hexDigit :: "nat \<Rightarrow> char" where
  "hexDigit d = ''0123456789abcdef'' ! d"

fun toString16 :: "nat \<Rightarrow> string" where
  "toString16 n = (if n < 16 then [hexDigit n] else toString16 (n div 16) @ [hexDigit (n mod 16)])"

declare toString16.simps [simp del]

definition padStart :: "nat \<Rightarrow> char \<Rightarrow> string \<Rightarrow> string" where
  "padStart n c s = replicate (n - length s) c @ s"

text \<open>The table \<open>HEX\<close>: entry \<open>i\<close> is \<open>i.toString(16).padStart(2, "0")\<close>.\<close>

definition HEX :: "nat \<Rightarrow> string" where
  "HEX i = padStart 2 CHR ''0'' (toString16 i)"

text \<open>\<open>bytesToHex\<close> without the optional \<open>byteSize\<close>: the loop appends one table entry per byte.\<close>

definition bytesToHex :: "byte list \<Rightarrow> string" where
  "bytesToHex bytes = foldl (\<lambda>out b. out @ HEX (unat b)) [] bytes"

text \<open>
  The table \<open>DECODE\<close> has 103 zero-initialised entries; a read beyond it is \<open>undefined\<close>,
  which the shift and the bitwise or of \<open>hexToBytes\<close> turn into 0.
\<close>

definition DECODE :: "nat \<Rightarrow> nat" where
  "DECODE c = (if 48 \<le> c \<and> c < 58 then c - 48
               else if 65 \<le> c \<and> c < 71 then c - 55
               else if 97 \<le> c \<and> c < 103 then c - 87
               else 0)"

fun hexPairs :: "string \<Rightarrow> byte list" where
  "hexPairs (a # b # rest) =
     word_of_nat (push_bit 4 (DECODE (of_char a)) OR DECODE (of_char b)) # hexPairs rest"
| "hexPairs _ = []"

definition hexToBytes :: "string \<Rightarrow> error + byte list" where
  "hexToBytes hex =
     (if odd (length hex) then Inl (Error ''hex length must be even'')
      else Inr (hexPairs hex))"

subsection \<open>\<open>sdk/constants.ts\<close>\<close>

definition HEADER_SIZE :: nat where
  "HEADER_SIZE = 143"

definition MARKER :: "byte list" where
  "MARKER = [0x4b, 0x53, 0x50, 0x4b]"

definition PROTOCOL_VERSION :: nat where
  "PROTOCOL_VERSION = 1"

subsection \<open>\<open>crypto/identifier.ts\<close>: the identifier as a value\<close>

record Identifier =
  hex :: string
  bytes :: "byte list"

definition Identifier_fromBytes :: "byte list \<Rightarrow> error + Identifier" where
  "Identifier_fromBytes bs =
     (if length bs \<noteq> 33 then Inl (Error ''Invalid Identifier length'')
      else Inr \<lparr>hex = bytesToHex bs, bytes = bs\<rparr>)"

definition toLowerCase :: "string \<Rightarrow> string" where
  "toLowerCase s =
     map (\<lambda>c. if 65 \<le> (of_char c :: nat) \<and> (of_char c :: nat) \<le> 90
              then char_of (of_char c + (32::nat)) else c) s"

definition Identifier_fromHex :: "string \<Rightarrow> error + Identifier" where
  "Identifier_fromHex h =
     (case hexToBytes h of
        Inl e \<Rightarrow> Inl e
      | Inr bs \<Rightarrow>
          if length bs \<noteq> 33 then Inl (Error ''Invalid Identifier length'')
          else Inr \<lparr>hex = toLowerCase h, bytes = bs\<rparr>)"

definition equals :: "Identifier \<Rightarrow> Identifier \<Rightarrow> bool" where
  "equals a b \<longleftrightarrow> hex a = hex b"

subsection \<open>\<open>models/payload.ts\<close>\<close>

text \<open>
  Typed-array primitives. A read beyond the end is \<open>undefined\<close>, which
  \<open>DataView.setUint8\<close> stores as 0; an indexed write beyond the end is ignored;
  \<open>subarray\<close> clamps its bounds; \<open>set\<close> throws when the source does not fit.
\<close>

definition at :: "byte list \<Rightarrow> nat \<Rightarrow> byte" where
  "at buf i = (if i < length buf then buf ! i else 0)"

definition readU16 :: "byte list \<Rightarrow> nat \<Rightarrow> nat" where
  "readU16 buf off = unat (at buf off) + 256 * unat (at buf (off + 1))"

definition writeU16 :: "byte list \<Rightarrow> nat \<Rightarrow> nat \<Rightarrow> byte list" where
  "writeU16 buf off val =
     (buf[off := word_of_nat (val mod 65536 mod 256)])
        [off + 1 := word_of_nat (val mod 65536 div 256)]"

definition subarray :: "byte list \<Rightarrow> nat \<Rightarrow> nat \<Rightarrow> byte list" where
  "subarray buf b e = take (e - b) (drop b buf)"

definition set_at :: "byte list \<Rightarrow> byte list \<Rightarrow> nat \<Rightarrow> error + byte list" where
  "set_at out src off =
     (if length out < length src + off then Inl (RangeError ''offset is out of bounds'')
      else Inr (take off out @ src @ drop (off + length src) out))"

definition bindE :: "error + 'a \<Rightarrow> ('a \<Rightarrow> error + 'b) \<Rightarrow> error + 'b" where
  "bindE m f = (case m of Inl e \<Rightarrow> Inl e | Inr x \<Rightarrow> f x)"

text \<open>
  The fields of the class. \<open>prefix\<close>, \<open>type\<close> and \<open>id\<close> carry a prime. \<open>type\<close> and
  \<open>version\<close> are JavaScript numbers holding non-negative integers.
\<close>

record Payload =
  marker :: "byte list"
  version :: nat
  prefix' :: "byte list"
  type' :: nat
  id' :: "byte list"
  publicKey :: "byte list"
  signature :: "byte list"
  data :: "byte list"

text \<open>The constructor: \<open>type >>> 0\<close> is the number modulo \<open>2^32\<close>.\<close>

definition new_Payload ::
  "byte list \<Rightarrow> nat \<Rightarrow> Identifier \<Rightarrow> byte list \<Rightarrow> byte list \<Rightarrow> error + Payload" where
  "new_Payload pfx ty identifier pk d =
     (if 0xffff < ty mod 2 ^ 32 then Inl (Error ''Type is out of 16-bit range'')
      else if length pk \<noteq> 33 then Inl (Error ''publicKey must be 33 bytes'')
      else Inr \<lparr>marker = MARKER, version = PROTOCOL_VERSION, prefix' = pfx, type' = ty,
                id' = bytes identifier, publicKey = pk, signature = replicate 64 0,
                data = d\<rparr>)"

text \<open>\<open>bytes.subarray(0, 4).every((v, i) => v === MARKER[i])\<close>.\<close>

definition marker_matches :: "byte list \<Rightarrow> bool" where
  "marker_matches sub \<longleftrightarrow>
     list_all (\<lambda>(i, v). i < length MARKER \<and> v = MARKER ! i) (enumerate 0 sub)"

definition fromBytes :: "byte list \<Rightarrow> error + Payload" where
  "fromBytes bs =
     (if length bs < HEADER_SIZE then Inl (Error ''Invalid payload size'')
      else if \<not> marker_matches (subarray bs 0 4) then Inl (Error ''Bad marker'')
      else if unat (at bs 4) \<noteq> PROTOCOL_VERSION then Inl (Error ''Bad version'')
      else
        let pfx = subarray bs 5 9;
            ty = readU16 bs 9;
            idb = subarray bs 11 44
        in bindE (Identifier_fromBytes idb) (\<lambda>identifier.
        let pk = subarray bs 44 77;
            sg = subarray bs 77 141;
            dataLen = readU16 bs 141;
            d = subarray bs 143 (143 + dataLen)
        in if length d \<noteq> dataLen then Inl (Error ''Data length mismatch'')
           else bindE (new_Payload pfx ty identifier pk d) (\<lambda>p.
                Inr (p\<lparr>signature := sg\<rparr>))))"

definition fromHex :: "string \<Rightarrow> error + Payload" where
  "fromHex h = bindE (hexToBytes h) fromBytes"

definition toBytes :: "Payload \<Rightarrow> error + byte list" where
  "toBytes p =
     (let total = HEADER_SIZE + length (data p);
          out = replicate total (0::byte)
      in bindE (set_at out (marker p) 0) (\<lambda>out.
         let out = out[4 := word_of_nat (version p)]
         in bindE (set_at out (prefix' p) 5) (\<lambda>out.
         let out = writeU16 out 9 (type' p)
         in bindE (set_at out (id' p) 11) (\<lambda>out.
         bindE (set_at out (publicKey p) 44) (\<lambda>out.
         bindE (set_at out (signature p) 77) (\<lambda>out.
         let out = writeU16 out 141 (length (data p) AND 0xffff)
         in set_at out (data p) 143))))))"

definition toHex :: "Payload \<Rightarrow> error + string" where
  "toHex p = bindE (toBytes p) (\<lambda>b. Inr (bytesToHex b))"

text \<open>The private method that builds the string handed to \<open>Schnorr.sign\<close> and \<open>Schnorr.verify\<close>.\<close>

definition buildMessage :: "Payload \<Rightarrow> string \<Rightarrow> string" where
  "buildMessage p outIds =
     concat [bytesToHex (marker p),
             padStart 2 CHR ''0'' (toString16 (version p)),
             bytesToHex (prefix' p),
             padStart 4 CHR ''0'' (toString16 (type' p)),
             bytesToHex (id' p),
             bytesToHex (publicKey p),
             bytesToHex (data p),
             outIds]"

subsection \<open>Auxiliary notions for the payload frame\<close>

text \<open>
  A payload whose fields have the sizes of the frame layout: what the constructor and
  \<open>fromBytes\<close> produce from fields of the documented sizes, with any 64-byte signature.
\<close>

definition wf_payload :: "Payload \<Rightarrow> bool" where
  "wf_payload p \<longleftrightarrow>
     marker p = MARKER \<and> version p = PROTOCOL_VERSION \<and> length (prefix' p) = 4 \<and>
     type' p \<le> 65535 \<and> length (id' p) = 33 \<and> length (publicKey p) = 33 \<and>
     length (signature p) = 64"

text \<open>The two bytes \<open>writeU16\<close> stores, low byte first, and the same value high byte first.\<close>

definition u16le :: "nat \<Rightarrow> byte list" where
  "u16le v = [word_of_nat (v mod 65536 mod 256), word_of_nat (v mod 65536 div 256)]"

text \<open>The frame layout written out as one concatenation.\<close>

definition frame :: "Payload \<Rightarrow> byte list" where
  "frame p = marker p @ [word_of_nat (version p)] @ prefix' p @ u16le (type' p) @ id' p @
             publicKey p @ signature p @ u16le (length (data p) AND 0xffff) @ data p"

text \<open>The payload that \<open>fromBytes\<close> assembles from an input that passes its checks.\<close>

definition parsed :: "byte list \<Rightarrow> Payload" where
  "parsed bs = \<lparr>marker = MARKER, version = PROTOCOL_VERSION, prefix' = take 4 (drop 5 bs),
     type' = readU16 bs 9, id' = take 33 (drop 11 bs), publicKey = take 33 (drop 44 bs),
     signature = take 64 (drop 77 bs), data = take (readU16 bs 141) (drop 143 bs)\<rparr>"

definition u16be :: "nat \<Rightarrow> byte list" where
  "u16be v = [word_of_nat (v div 256), word_of_nat (v mod 256)]"

text \<open>
  The preimage as the specification words it: every field as the hexadecimal form of its
  bytes, \<open>type\<close> as 2 bytes little-endian (the bytes \<open>writeU16\<close> stores).
\<close>

definition spec_preimage :: "Payload \<Rightarrow> string \<Rightarrow> string" where
  "spec_preimage p outIds =
     bytesToHex (marker p) @ bytesToHex [word_of_nat (version p)] @ bytesToHex (prefix' p) @
     bytesToHex (writeU16 [0, 0] 0 (type' p)) @ bytesToHex (id' p) @ bytesToHex (publicKey p) @
     bytesToHex (data p) @ outIds"

text \<open>A sample payload: prefix \<open>TEST\<close>, type 1, four bytes of data, unsigned.\<close>

definition examplePayload :: Payload where
  "examplePayload =
     \<lparr>marker = MARKER, version = PROTOCOL_VERSION, prefix' = [0x54, 0x45, 0x53, 0x54],
      type' = 1, id' = [2, 0, 0, 0, 0, 0, 0, 0, 0, 0, 0, 0, 0, 0, 0, 0, 0, 0, 0, 0, 0, 0, 0, 0, 0, 0, 0, 0, 0,
             0, 0, 0, 1],
      publicKey = [3, 0x11, 0x11, 0x11, 0x11, 0x11, 0x11, 0x11, 0x11, 0x11, 0x11, 0x11, 0x11,
                   0x11, 0x11, 0x11, 0x11, 0x11, 0x11, 0x11, 0x11, 0x11, 0x11, 0x11, 0x11, 0x11,
                   0x11, 0x11, 0x11, 0x11, 0x11, 0x11, 0x11],
      signature = replicate 64 0, data = [0xde, 0xad, 0xbe, 0xef]\<rparr>"

text \<open>
  The shortest input \<open>fromBytes\<close> can accept: marker, version 1 and 138 zero bytes (so the
  id and the public key are all zero and the data is empty); and the identifier of the
  sample payload.
\<close>

definition minimalFrame :: "byte list" where
  "minimalFrame = MARKER @ [1] @ replicate 138 0"

definition exampleIdentifier :: Identifier where
  "exampleIdentifier = \<lparr>hex = bytesToHex (id' examplePayload), bytes = id' examplePayload\<rparr>"

subsection \<open>\<open>Payload.getPrefix\<close> and the platform's \<open>TextDecoder\<close>\<close>

text \<open>
  A JavaScript string that is not known to hold hexadecimal digits only is a list of
  UTF-16 code units. \<open>new TextDecoder().decode\<close> is the UTF-8 decoder of the Encoding
  standard in its default mode: a malformed sequence yields U+FFFD and the byte that broke
  it is read again, an unfinished sequence at the end yields U+FFFD, and one leading
  U+FEFF is dropped. The decoder state is (code point, bytes seen, bytes needed, lower
  boundary, upper boundary).
\<close>

type_synonym jsstring = "nat list"

type_synonym utf8_state = "nat \<times> nat \<times> nat \<times> nat \<times> nat"

definition utf8_init :: utf8_state where
  "utf8_init = (0, 0, 0, 0x80, 0xBF)"

definition utf8_lead :: "nat \<Rightarrow> utf8_state \<times> nat list" where
  "utf8_lead b =
     (if b \<le> 0x7F then (utf8_init, [b])
      else if 0xC2 \<le> b \<and> b \<le> 0xDF then ((b AND 0x1F, 0, 1, 0x80, 0xBF), [])
      else if 0xE0 \<le> b \<and> b \<le> 0xEF then
        ((b AND 0xF, 0, 2, if b = 0xE0 then 0xA0 else 0x80, if b = 0xED then 0x9F else 0xBF), [])
      else if 0xF0 \<le> b \<and> b \<le> 0xF4 then
        ((b AND 0x7, 0, 3, if b = 0xF0 then 0x90 else 0x80, if b = 0xF4 then 0x8F else 0xBF), [])
      else (utf8_init, [0xFFFD]))"

definition utf8_step :: "utf8_state \<Rightarrow> nat \<Rightarrow> utf8_state \<times> nat list" where
  "utf8_step st b =
     (case st of (cp, seen, needed, lo, up) \<Rightarrow>
        if needed = 0 then utf8_lead b
        else if b < lo \<or> up < b then
          (case utf8_lead b of (st', out) \<Rightarrow> (st', 0xFFFD # out))
        else
          let cp' = push_bit 6 cp OR (b AND 0x3F) in
          if seen + 1 \<noteq> needed then ((cp', seen + 1, needed, 0x80, 0xBF), [])
          else (utf8_init, [cp']))"

fun utf8_run :: "utf8_state \<Rightarrow> nat list \<Rightarrow> nat list" where
  "utf8_run st [] = (case st of (cp, seen, needed, lo, up) \<Rightarrow> if needed \<noteq> 0 then [0xFFFD] else [])"
| "utf8_run st (b # bs) = (case utf8_step st b of (st', out) \<Rightarrow> out @ utf8_run st' bs)"

definition stripBOM :: "nat list \<Rightarrow> nat list" where
  "stripBOM cps = (case cps of [] \<Rightarrow> [] | c # rest \<Rightarrow> if c = 0xFEFF then rest else c # rest)"

definition codeUnits :: "nat \<Rightarrow> nat list" where
  "codeUnits cp =
     (if cp < 0x10000 then [cp]
      else [0xD800 + (cp - 0x10000) div 0x400, 0xDC00 + (cp - 0x10000) mod 0x400])"

definition TextDecoder_decode :: "byte list \<Rightarrow> jsstring" where
  "TextDecoder_decode bs = concat (map codeUnits (stripBOM (utf8_run utf8_init (map unat bs))))"

text \<open>\<open>.replace(/\0/g, "")\<close> removes every NUL code unit of the string.\<close>

definition getPrefix :: "Payload \<Rightarrow> jsstring" where
  "getPrefix p = filter (\<lambda>u. u \<noteq> 0) (TextDecoder_decode (prefix' p))"

text \<open>
  The extraction as the specification words it: the trailing \<open>0x00\<close> bytes are trimmed
  and the remaining bytes are read as ASCII, interior \<open>0x00\<close> bytes included.
\<close>

definition spec_getPrefix :: "Payload \<Rightarrow> jsstring" where
  "spec_getPrefix p = map unat (rev (dropWhile (\<lambda>b. b = 0) (rev (prefix' p))))"

text \<open>A payload whose prefix field is \<open>A\<close>, NUL, \<open>B\<close>, NUL.\<close>

definition interiorNulPayload :: Payload where
  "interiorNulPayload = examplePayload\<lparr>prefix' := [0x41, 0x00, 0x42, 0x00]\<rparr>"

subsection \<open>\<open>sdk/message-registry.ts\<close> and the message classes\<close>

text \<open>
  A message class carries its two static properties, its constructor called without
  arguments (which yields the fields of a fresh instance, or throws) and its
  \<open>fromPlainObject\<close> method, which is code of the application, may throw any value, and
  may be absent on a class written in plain JavaScript.
  \<open>'f\<close> is the type of the fields of an instance and \<open>'o\<close> the type of plain objects.
  A worker is an opaque function, named by a number.
\<close>

definition message :: "error \<Rightarrow> string" where
  "message e =
     (case e of Error m \<Rightarrow> m | RangeError m \<Rightarrow> m | SyntaxError m \<Rightarrow> m | TypeError m \<Rightarrow> m)"

text \<open>
  What code outside the repository may throw: JavaScript lets any value be thrown.
  \<open>ThrownObject m\<close> is a thrown value other than \<open>null\<close> and \<open>undefined\<close>, with the text
  \<open>m\<close> that reading its \<open>message\<close> inside a template literal yields (the message of an
  \<open>Error\<close> object, \<open>undefined\<close> for a value without that property). Reading a property
  of \<open>null\<close> or of \<open>undefined\<close> throws a \<open>TypeError\<close>.
\<close>

datatype thrown = ThrownObject string | ThrownNull | ThrownUndefined

definition readMessage :: "thrown \<Rightarrow> error + string" where
  "readMessage e =
     (case e of
        ThrownObject m \<Rightarrow> Inr m
      | ThrownNull \<Rightarrow> Inl (TypeError ''Cannot read properties of null'')
      | ThrownUndefined \<Rightarrow> Inl (TypeError ''Cannot read properties of undefined''))"

record ('f, 'o) MessageClass =
  messageType :: nat
  requiresEncryption :: bool
  construct :: "error + 'f"
  fromPlainObject :: "('f \<Rightarrow> 'o \<Rightarrow> thrown + 'f) option"

type_synonym WorkerFn = nat

record ('f, 'o) RegistryEntry =
  cls :: "('f, 'o) MessageClass"
  worker :: "WorkerFn option"

type_synonym ('f, 'o) MessageRegistry = "nat \<Rightarrow> ('f, 'o) RegistryEntry option"

definition register ::
  "('f, 'o) MessageClass \<Rightarrow> WorkerFn option \<Rightarrow> ('f, 'o) MessageRegistry \<Rightarrow> ('f, 'o) MessageRegistry" where
  "register ctor w classes = classes(messageType ctor \<mapsto> \<lparr>cls = ctor, worker = w\<rparr>)"

definition create :: "('f, 'o) MessageRegistry \<Rightarrow> nat \<Rightarrow> error + (('f, 'o) MessageClass \<times> 'f)" where
  "create classes key =
     (case classes key of
        None \<Rightarrow> Inl (Error ''Class not registered'')
      | Some entry \<Rightarrow>
          (case construct (cls entry) of
             Inl e \<Rightarrow> Inl e
           | Inr fs \<Rightarrow> Inr (cls entry, fs)))"

definition getWorker :: "('f, 'o) MessageRegistry \<Rightarrow> nat \<Rightarrow> error + WorkerFn option" where
  "getWorker classes key =
     (case classes key of
        None \<Rightarrow> Inl (Error ''Class not found in registry'')
      | Some entry \<Rightarrow> Inr (worker entry))"

subsection \<open>\<open>models/message-header.ts\<close> and \<open>crypto/peer.ts\<close>\<close>

record BlockMeta =
  hash :: string
  timestamp :: nat
  daaScore :: nat

record Peer =
  peer_address :: string
  peer_publicKey :: "byte list"
  peer_signature :: "byte list"
  isOwn :: bool
  peer_privateKey :: int

record MessageHeader =
  txid :: string
  peer :: Peer
  header_prefix :: jsstring
  header_type :: nat
  header_identifier :: Identifier
  blockMeta :: BlockMeta
  consensusHash :: string

definition MessageHeader_fromTransaction ::
  "string \<Rightarrow> jsstring \<Rightarrow> string \<Rightarrow> string \<Rightarrow> Payload \<Rightarrow> BlockMeta \<Rightarrow> string \<Rightarrow> int
   \<Rightarrow> error + MessageHeader" where
  "MessageHeader_fromTransaction myAddress pfx tid addr p meta cHash priv =
     (let own = (myAddress = addr);
          pr = \<lparr>peer_address = addr, peer_publicKey = publicKey p,
                peer_signature = signature p, isOwn = own, peer_privateKey = priv\<rparr>
      in bindE (Identifier_fromBytes (id' p)) (\<lambda>ident.
         Inr \<lparr>txid = tid, peer = pr, header_prefix = pfx, header_type = type' p,
              header_identifier = ident, blockMeta = meta, consensusHash = cHash\<rparr>))"

subsection \<open>\<open>sdk/kaspeak.ts\<close>: the block handler\<close>

text \<open>
  The ledger library is outside the repository: its Schnorr verification, its derivation
  of a public key from the hexadecimal form of a private key (\<open>new PrivateKey(hex)\<close> and
  \<open>toPublicKey\<close>) and its derivation of an address from the hexadecimal form of a public
  key are parameters. Each may throw.
\<close>

record Ledger =
  verifyMessage :: "string \<Rightarrow> string \<Rightarrow> string \<Rightarrow> error + bool"
  publicKeyFromPrivateKey :: "string \<Rightarrow> error + string"
  addressFromPublicKey :: "string \<Rightarrow> error + string"

record TransactionInput =
  transactionId :: string
  index :: nat

record ITransaction =
  inputs :: "TransactionInput list"
  payload :: string
  verboseData :: "string option"

datatype log_entry = LogError string | LogWarn string | LogDebug string

text \<open>
  The fields of the session that the block handler reads or writes, and what it sends
  out: the events given to \<open>eventBus.emit\<close>, the worker calls queued as microtasks, and the
  calls of the logger.
\<close>

record ('f, 'o) Kaspeak =
  privateKey :: int
  sdk_publicKey :: "byte list"
  publicKeyHex :: string
  address :: string
  prefixString :: jsstring
  knownTxIds :: "string LimitedHashSet"
  messageRegistry :: "('f, 'o) MessageRegistry"
  prefixFilterEnabled :: bool
  signatureVerificationEnabled :: bool
  emitted :: "(MessageHeader \<times> byte list) list"
  scheduled :: "(WorkerFn \<times> MessageHeader \<times> byte list) list"
  logged :: "log_entry list"

definition Schnorr_verify :: "Ledger \<Rightarrow> byte list \<Rightarrow> string \<Rightarrow> string \<Rightarrow> error + bool" where
  "Schnorr_verify ledger sg msg pubHex =
     (if length sg \<noteq> 64 then Inr False
      else verifyMessage ledger msg (bytesToHex sg) (drop 2 pubHex))"

definition verify :: "Ledger \<Rightarrow> Payload \<Rightarrow> string \<Rightarrow> error + bool" where
  "verify ledger p outIds =
     Schnorr_verify ledger (signature p) (buildMessage p outIds) (bytesToHex (publicKey p))"

definition parsePayload :: "string \<Rightarrow> error + Payload" where
  "parsePayload d = fromHex d"

text \<open>\<open>Array.prototype.sort\<close> is stable, as \<open>sort_key\<close> is.\<close>

definition getOutpointIds :: "ITransaction \<Rightarrow> string" where
  "getOutpointIds tx = concat (map transactionId (sort_key index (inputs tx)))"

definition createMessageHeaderFromTransaction ::
  "Ledger \<Rightarrow> ('f, 'o) Kaspeak \<Rightarrow> string \<Rightarrow> jsstring \<Rightarrow> Payload \<Rightarrow> BlockMeta \<Rightarrow> string
   \<Rightarrow> error + MessageHeader" where
  "createMessageHeaderFromTransaction ledger sdk tid pfx p meta cHash =
     bindE (addressFromPublicKey ledger (bytesToHex (publicKey p))) (\<lambda>addr.
       MessageHeader_fromTransaction (address sdk) pfx tid addr p meta cHash (privateKey sdk))"

definition callWorker ::
  "('f, 'o) Kaspeak \<Rightarrow> MessageHeader \<Rightarrow> byte list \<Rightarrow> error + ('f, 'o) Kaspeak" where
  "callWorker sdk header rawData =
     bindE (getWorker (messageRegistry sdk) (header_type header)) (\<lambda>w.
       case w of
         None \<Rightarrow> Inr sdk
       | Some f \<Rightarrow> Inr (sdk\<lparr>scheduled := scheduled sdk @ [(f, header, rawData)]\<rparr>))"

definition logger :: "log_entry \<Rightarrow> ('f, 'o) Kaspeak \<Rightarrow> ('f, 'o) Kaspeak" where
  "logger entry sdk = sdk\<lparr>logged := logged sdk @ [entry]\<rparr>"

text \<open>The \<open>catch\<close> of the loop body: every error of the model is an \<open>Error\<close> object.\<close>

definition caught :: "error \<Rightarrow> ('f, 'o) Kaspeak \<Rightarrow> ('f, 'o) Kaspeak" where
  "caught e sdk = logger (LogError (''Error processing transaction: '' @ message e)) sdk"

text \<open>
  One turn of the loop of \<open>processTransactions\<close>, in three parts: the filters, the
  dedup set and the parser; the prefix filter and the signature check; the header, the
  event and the worker. The session is threaded through, so that what was written before
  an exception stays written.
\<close>

definition dispatch ::
  "Ledger \<Rightarrow> BlockMeta \<Rightarrow> string \<Rightarrow> Payload \<Rightarrow> jsstring \<Rightarrow> string \<Rightarrow> ('f, 'o) Kaspeak
   \<Rightarrow> ('f, 'o) Kaspeak" where
  "dispatch ledger meta tid p pfx cHash sdk0 =
     (let sdk = logger (LogDebug ''Processing transaction'') sdk0 in
      case createMessageHeaderFromTransaction ledger sdk tid pfx p meta cHash of
        Inl e \<Rightarrow> caught e sdk
      | Inr header \<Rightarrow>
          (let sdk1 = sdk\<lparr>emitted := emitted sdk @ [(header, data p)]\<rparr> in
           if pfx = prefixString sdk1
           then (case callWorker sdk1 header (data p) of
                   Inl e \<Rightarrow> caught e sdk1
                 | Inr sdk2 \<Rightarrow> sdk2)
           else sdk1))"

definition checkAndDispatch ::
  "Ledger \<Rightarrow> BlockMeta \<Rightarrow> ITransaction \<Rightarrow> string \<Rightarrow> Payload \<Rightarrow> ('f, 'o) Kaspeak
   \<Rightarrow> ('f, 'o) Kaspeak" where
  "checkAndDispatch ledger meta tx tid p sdk0 =
     (let pfx = getPrefix p in
      if prefixFilterEnabled sdk0 \<and> pfx \<noteq> prefixString sdk0 then sdk0
      else
        (let cHash = getOutpointIds tx;
             sdk = logger (LogDebug (''Received outpointIds: '' @ cHash)) sdk0
         in if signatureVerificationEnabled sdk
            then (case verify ledger p cHash of
                    Inl e \<Rightarrow> caught e sdk
                  | Inr verified \<Rightarrow>
                      if \<not> verified
                      then logger (LogWarn (''Payload signature verification failed for txId: '' @ tid)) sdk
                      else dispatch ledger meta tid p pfx cHash sdk)
            else dispatch ledger meta tid p pfx cHash sdk))"

definition processTransaction ::
  "Ledger \<Rightarrow> BlockMeta \<Rightarrow> ITransaction \<Rightarrow> ('f, 'o) Kaspeak \<Rightarrow> ('f, 'o) Kaspeak" where
  "processTransaction ledger meta tx sdk =
     (if odd (length (payload tx)) then sdk
      else if length (payload tx) < HEADER_SIZE then sdk
      else if take 8 (payload tx) \<noteq> ''4b53504b'' then sdk
      else if verboseData tx = None then caught (Error ''verboseData is undefined in tx'') sdk
      else
        (let tid = the (verboseData tx);
             added = fst (tryAdd tid (knownTxIds sdk));
             sdk1 = sdk\<lparr>knownTxIds := snd (tryAdd tid (knownTxIds sdk))\<rparr>
         in if \<not> added then sdk1
            else (case parsePayload (payload tx) of
                    Inl e \<Rightarrow> caught e sdk1
                  | Inr p \<Rightarrow> checkAndDispatch ledger meta tx tid p sdk1)))"

definition processTransactions ::
  "Ledger \<Rightarrow> ITransaction list \<Rightarrow> BlockMeta \<Rightarrow> ('f, 'o) Kaspeak \<Rightarrow> ('f, 'o) Kaspeak" where
  "processTransactions ledger txs meta sdk = fold (processTransaction ledger meta) txs sdk"

text \<open>
  A transaction whose payload is the marker followed by 68 zero bytes: 72 bytes, 144
  hexadecimal characters. And a fresh session with the default prefix \<open>TEST\<close> and no
  registered class.
\<close>

definition shortTransaction :: ITransaction where
  "shortTransaction =
     \<lparr>inputs = [], payload = ''4b53504b'' @ replicate 136 CHR ''0'', verboseData = Some ''tx1''\<rparr>"

definition freshSession :: "('f, 'o) Kaspeak" where
  "freshSession =
     \<lparr>privateKey = 6, sdk_publicKey = [], publicKeyHex = [], address = ''kaspatest:example'',
      prefixString = [0x54, 0x45, 0x53, 0x54],
      knownTxIds = initial_knownTxIds, messageRegistry = Map.empty,
      prefixFilterEnabled = True, signatureVerificationEnabled = True,
      emitted = [], scheduled = [], logged = []\<rparr>"

subsection \<open>\<open>sdk/message-serializer.ts\<close>: \<open>MessageSerializer.decode\<close>\<close>

text \<open>
  The three libraries of the pipeline are outside the repository and are parameters:
  \<open>aead_open key nonce ciphertext\<close> stands for
  \<open>new XChaCha20Poly1305(key).open(nonce, ciphertext)\<close>, which returns \<open>null\<close>, returns the
  plaintext or throws; \<open>decompressZstd\<close> and \<open>cborDecode\<close> return or throw.
\<close>

record 'o Codecs =
  aead_open :: "byte list \<Rightarrow> byte list \<Rightarrow> byte list \<Rightarrow> thrown + byte list option"
  decompressZstd :: "byte list \<Rightarrow> thrown + byte list"
  cborDecode :: "byte list \<Rightarrow> thrown + 'o"

text \<open>
  An instance of a registered class, and what \<open>decode\<close> returns: such an instance or an
  \<open>UnknownMessage(rawData, errorDesc, code)\<close>.
\<close>

record ('f, 'o) BaseMessage =
  msg_class :: "('f, 'o) MessageClass"
  msg_header :: "MessageHeader option"
  msg_fields :: 'f

datatype ('f, 'o) decoded =
  Instance "('f, 'o) BaseMessage"
| UnknownMessage "byte list option" "string option" "nat option"

text \<open>
  Each \<open>catch (e)\<close> of \<open>decode\<close> returns
  \<open>new UnknownMessage(data, `<stage> failed: ${e.message}`, code)\<close>. Building the
  description reads \<open>e.message\<close>; when that throws, the exception leaves \<open>decode\<close>.
\<close>

definition catchAs ::
  "string \<Rightarrow> nat \<Rightarrow> byte list \<Rightarrow> thrown \<Rightarrow> error + ('f, 'o) decoded" where
  "catchAs stage code d e =
     bindE (readMessage e) (\<lambda>m.
       Inr (UnknownMessage (Some d) (Some (stage @ '' failed: '' @ m)) (Some code)))"

text \<open>
  Phase 1. The result is an exception, the \<open>UnknownMessage\<close> returned from inside the
  \<open>try\<close> or its \<open>catch\<close> (\<open>Inr (Inl _)\<close>), or the plaintext handed to phase 2
  (\<open>Inr (Inr _)\<close>).
\<close>

definition decryptPhase ::
  "'o Codecs \<Rightarrow> ('f, 'o) BaseMessage \<Rightarrow> byte list \<Rightarrow> byte list option
   \<Rightarrow> error + (('f, 'o) decoded + byte list)" where
  "decryptPhase codecs inst d key =
     (if requiresEncryption (msg_class inst) \<and> key \<noteq> None then
        (case aead_open codecs (the key) (take 24 d) (drop 24 d) of
           Inl e \<Rightarrow> bindE (catchAs ''Decryption'' 2 d e) (\<lambda>unknown. Inr (Inl unknown))
         | Inr None \<Rightarrow>
             Inr (Inl (UnknownMessage (Some d) (Some ''Decryption failed: invalid key'') (Some 0)))
         | Inr (Some maybePlain) \<Rightarrow>
             if length maybePlain = 0
             then Inr (Inl (UnknownMessage (Some d)
                             (Some ''Decryption failed: empty decrypted data'') (Some 1)))
             else Inr (Inr maybePlain))
      else Inr (Inr d))"

text \<open>Phase 4, the hydration of the instance from the decoded object.\<close>

definition hydratePhase ::
  "('f, 'o) BaseMessage \<Rightarrow> byte list \<Rightarrow> 'o \<Rightarrow> error + ('f, 'o) decoded" where
  "hydratePhase inst d obj =
     (case fromPlainObject (msg_class inst) of
        None \<Rightarrow> Inr (Instance inst)
      | Some h \<Rightarrow>
          (case h (msg_fields inst) obj of
             Inl e \<Rightarrow> catchAs ''fromPlainObject'' 5 d e
           | Inr fs \<Rightarrow> Inr (Instance (inst\<lparr>msg_fields := fs\<rparr>))))"

text \<open>Phases 2 and 3, decompression and CBOR decoding, followed by phase 4.\<close>

definition decodePhases ::
  "'o Codecs \<Rightarrow> ('f, 'o) BaseMessage \<Rightarrow> byte list \<Rightarrow> byte list \<Rightarrow> error + ('f, 'o) decoded" where
  "decodePhases codecs inst d plaintext =
     (case decompressZstd codecs plaintext of
        Inl e \<Rightarrow> catchAs ''Decompress'' 3 d e
      | Inr decompressed \<Rightarrow>
          (case cborDecode codecs decompressed of
             Inl e \<Rightarrow> catchAs ''CBOR decode'' 4 d e
           | Inr obj \<Rightarrow> hydratePhase inst d obj))"

definition decode ::
  "'o Codecs \<Rightarrow> ('f, 'o) MessageRegistry \<Rightarrow> MessageHeader \<Rightarrow> byte list \<Rightarrow> byte list option
   \<Rightarrow> error + ('f, 'o) decoded" where
  "decode codecs registry header d key =
     bindE (create registry (header_type header)) (\<lambda>(c, fs).
       let inst = \<lparr>msg_class = c, msg_header = Some header, msg_fields = fs\<rparr> in
       if requiresEncryption c \<and> key = None
       then Inl (Error ''Encryption key is required but not provided'')
       else bindE (decryptPhase codecs inst d key) (\<lambda>phase1.
              case phase1 of
                Inl unknown \<Rightarrow> Inr unknown
              | Inr plaintext \<Rightarrow> decodePhases codecs inst d plaintext))"

text \<open>
  Stand-ins for the libraries, used to run the pipeline: the cipher wants a 32-byte key,
  rejects an empty ciphertext and otherwise strips one byte; decompression wants the byte
  \<open>0x28\<close> in front and strips it; CBOR rejects empty input. Whatever they throw is an
  \<open>Error\<close> object.
\<close>

definition toyCodecs :: "byte list Codecs" where
  "toyCodecs =
     \<lparr>aead_open = (\<lambda>k n c. if length k \<noteq> 32 then Inl (ThrownObject ''key size'')
                            else (case c of [] \<Rightarrow> Inr None | x # r \<Rightarrow> Inr (Some r))),
      decompressZstd = (\<lambda>b. case b of [] \<Rightarrow> Inl (ThrownObject ''no frame'')
                               | x # r \<Rightarrow> if x = 0x28 then Inr r
                                         else Inl (ThrownObject ''no frame'')),
      cborDecode = (\<lambda>b. if b = [] then Inl (ThrownObject ''no input'') else Inr b)\<rparr>"

text \<open>
  A registered class without encryption whose \<open>fromPlainObject\<close> rejects an object that
  starts with \<open>0\<close> by \<open>throw null\<close> and accepts every other object; a registry that holds
  it; and a header of its type.
\<close>

definition StrictNote :: "(byte list, byte list) MessageClass" where
  "StrictNote =
     \<lparr>messageType = 7, requiresEncryption = False, construct = Inr [],
      fromPlainObject = Some (\<lambda>fs obj. case obj of [] \<Rightarrow> Inr obj
                                | x # r \<Rightarrow> if x = 0 then Inl ThrownNull else Inr obj)\<rparr>"

definition toyRegistry :: "(byte list, byte list) MessageRegistry" where
  "toyRegistry = register StrictNote None Map.empty"

definition toyHeader :: MessageHeader where
  "toyHeader =
     \<lparr>txid = ''tx1'',
      peer = \<lparr>peer_address = ''kaspatest:peer'', peer_publicKey = publicKey examplePayload,
              peer_signature = replicate 64 0, isOwn = False, peer_privateKey = 6\<rparr>,
      header_prefix = [0x54, 0x45, 0x53, 0x54], header_type = 7,
      header_identifier = exampleIdentifier,
      blockMeta = \<lparr>hash = ''h'', timestamp = 0, daaScore = 0\<rparr>, consensusHash = ''aa''\<rparr>"

subsection \<open>\<open>sdk/kaspeak.ts\<close>: \<open>Kaspeak.create\<close>\<close>


















section \<open>The bounded dedup set\<close>

lemma knownTxIds_constructed: "new_LimitedHashSet 5000 = Inr initial_knownTxIds"
  by (simp add: new_LimitedHashSet_def initial_knownTxIds_def)

lemma tryAdd_present: "v \<in> set' s \<Longrightarrow> tryAdd v s = (False, s)"
  by (simp add: tryAdd_def)

lemma tryAdd_full:
  "v \<notin> set' s \<Longrightarrow> queue s = oldest # rest \<Longrightarrow> length (queue s) = capacity s \<Longrightarrow>
   tryAdd v s = (True, s\<lparr>queue := rest @ [v], set' := insert v (set' s - {oldest})\<rparr>)"
  by (simp add: tryAdd_def)

lemma tryAdd_room:
  "v \<notin> set' s \<Longrightarrow> length (queue s) \<noteq> capacity s \<Longrightarrow>
   tryAdd v s = (True, s\<lparr>queue := queue s @ [v], set' := insert v (set' s)\<rparr>)"
  by (simp add: tryAdd_def)

lemma tryAdd_fresh:
  assumes "lhs_inv s" "v \<notin> set (queue s)"
  shows "queue (snd (tryAdd v s)) = drop (Suc (length (queue s)) - capacity s) (queue s @ [v])
    \<and> lhs_inv (snd (tryAdd v s)) \<and> capacity (snd (tryAdd v s)) = capacity s"
proof (cases "length (queue s) = capacity s")
  case True
  then obtain oldest rest where q: "queue s = oldest # rest"
    using assms(1) by (cases "queue s") (auto simp: lhs_inv_def)
  have nin: "v \<notin> set' s" using assms by (simp add: lhs_inv_def)
  show ?thesis
    using assms True q by (simp add: tryAdd_full[OF nin q True] lhs_inv_def)
next
  case False
  have nin: "v \<notin> set' s" using assms by (simp add: lhs_inv_def)
  show ?thesis
    using assms False by (simp add: tryAdd_room[OF nin False] lhs_inv_def)
qed

lemma addAll_Cons: "addAll (v # vs) s = addAll vs (snd (tryAdd v s))"
  by (simp add: addAll_def)

text \<open>
  With distinct values coming in, the queue is always the last \<open>capacity\<close> values seen
  so far, and the native set holds the same elements.
\<close>

lemma addAll_queue:
  "lhs_inv s \<Longrightarrow> distinct (queue s @ vs) \<Longrightarrow>
   queue (addAll vs s) = drop (length (queue s @ vs) - capacity s) (queue s @ vs)
   \<and> lhs_inv (addAll vs s) \<and> capacity (addAll vs s) = capacity s"
proof (induction vs arbitrary: s)
  case Nil
  then show ?case by (simp add: addAll_def lhs_inv_def)
next
  case (Cons v vs)
  let ?t = "snd (tryAdd v s)"
  have fresh: "v \<notin> set (queue s)" using Cons.prems(2) by auto
  note st = tryAdd_fresh[OF Cons.prems(1) fresh]
  have len: "length (queue s) \<le> capacity s" "Suc 0 - capacity s = 0"
    using Cons.prems(1) by (simp_all add: lhs_inv_def)
  have qt: "queue ?t @ vs = drop (Suc (length (queue s)) - capacity s) (queue s @ v # vs)"
    using st len by simp
  have "distinct (queue ?t @ vs)"
    unfolding qt using Cons.prems(2) by (rule distinct_drop)
  from Cons.IH[OF _ this] st
  have IH: "queue (addAll vs ?t) = drop (length (queue ?t @ vs) - capacity s) (queue ?t @ vs)"
    and inv: "lhs_inv (addAll vs ?t)" and cap: "capacity (addAll vs ?t) = capacity s"
    by simp_all
  have "drop (length (queue ?t @ vs) - capacity s) (queue ?t @ vs)
      = drop (length (queue s @ v # vs) - capacity s) (queue s @ v # vs)"
    unfolding qt using len
    by (simp del: drop_append add: add.commute) (rule arg_cong2[where f=drop], arith, rule refl)
  with IH inv cap show ?case by (simp only: addAll_Cons)
qed

lemma knownTxIds_inv: "lhs_inv initial_knownTxIds"
  by (simp add: lhs_inv_def initial_knownTxIds_def)

lemma knownTxIds_stream:
  assumes "distinct ids"
  shows "queue (addAll ids initial_knownTxIds) = drop (length ids - 5000) ids"
    and "set' (addAll ids initial_knownTxIds) = set (drop (length ids - 5000) ids)"
proof -
  have d: "distinct (queue initial_knownTxIds @ ids)" using assms by (simp add: initial_knownTxIds_def)
  from addAll_queue[OF knownTxIds_inv d]
  show q: "queue (addAll ids initial_knownTxIds) = drop (length ids - 5000) ids"
    by (simp add: initial_knownTxIds_def)
  from addAll_queue[OF knownTxIds_inv d]
  have "lhs_inv (addAll ids initial_knownTxIds)" by simp
  then show "set' (addAll ids initial_knownTxIds) = set (drop (length ids - 5000) ids)"
    using q by (simp add: lhs_inv_def)
qed

text \<open>
  Claim C8. The dedup set of the session has capacity 5000. \<open>tryAdd v\<close> returns
  \<open>false\<close> and changes nothing when \<open>v\<close> is present; otherwise, when the size equals the
  capacity, the oldest element leaves before \<open>v\<close> enters (and nothing leaves when there is
  room). After a stream of more than 5000 distinct ids the set holds exactly the last
  5000 of them, in arrival order in the queue.
\<close>

theorem C8_dedup_keeps_last_5000:
  "capacity initial_knownTxIds = 5000 \<and> queue initial_knownTxIds = [] \<and> set' initial_knownTxIds = {}
   \<and> (v \<in> set' s \<longrightarrow> tryAdd v s = (False, s))
   \<and> (v \<notin> set' s \<and> size' s = capacity s \<and> queue s = oldest # rest \<longrightarrow>
        tryAdd v s = (True, s\<lparr>queue := rest @ [v], set' := insert v (set' s - {oldest})\<rparr>))
   \<and> (v \<notin> set' s \<and> size' s \<noteq> capacity s \<longrightarrow>
        tryAdd v s = (True, s\<lparr>queue := queue s @ [v], set' := insert v (set' s)\<rparr>))
   \<and> (distinct ids \<and> 5000 < length ids \<longrightarrow>
        set' (addAll ids initial_knownTxIds) = set (drop (length ids - 5000) ids)
        \<and> queue (addAll ids initial_knownTxIds) = drop (length ids - 5000) ids
        \<and> size' (addAll ids initial_knownTxIds) = 5000)"
proof -
  have "distinct ids \<and> 5000 < length ids \<longrightarrow>
        set' (addAll ids initial_knownTxIds) = set (drop (length ids - 5000) ids)
        \<and> queue (addAll ids initial_knownTxIds) = drop (length ids - 5000) ids
        \<and> size' (addAll ids initial_knownTxIds) = 5000"
    using knownTxIds_stream[of ids] by (simp add: size'_def)
  moreover have "capacity initial_knownTxIds = 5000 \<and> queue initial_knownTxIds = [] \<and> set' initial_knownTxIds = {}"
    by (simp add: initial_knownTxIds_def)
  ultimately show ?thesis
    using tryAdd_present[of v s] tryAdd_full[of v s oldest rest] tryAdd_room[of v s]
    unfolding size'_def by blast
qed

lemma replicate_ids_distinct: "distinct (map (\<lambda>n. replicate (Suc n) CHR ''a'') [0..<m])"
  by (simp add: distinct_map inj_on_def)

theorem C8_dedup_keeps_last_5000_witness:
  "set' (addAll (map (\<lambda>n. replicate (Suc n) CHR ''a'') [0..<5001]) initial_knownTxIds)
     = set (drop 1 (map (\<lambda>n. replicate (Suc n) CHR ''a'') [0..<5001]))
   \<and> tryAdd ''b'' \<lparr>queue = [''b''], set' = {''b''}, capacity = 1\<rparr>
       = (False, \<lparr>queue = [''b''], set' = {''b''}, capacity = 1\<rparr>)
   \<and> tryAdd ''c'' \<lparr>queue = [''b''], set' = {''b''}, capacity = 1\<rparr>
       = (True, \<lparr>queue = [''c''], set' = {''c''}, capacity = 1\<rparr>)
   \<and> tryAdd ''c'' \<lparr>queue = [''b''], set' = {''b''}, capacity = 2\<rparr>
       = (True, \<lparr>queue = [''b'', ''c''], set' = {''c'', ''b''}, capacity = 2\<rparr>)"
proof -
  let ?ids = "map (\<lambda>n. replicate (Suc n) CHR ''a'') [0..<5001]"
  have h: "distinct ?ids \<and> 5000 < length ?ids"
    using replicate_ids_distinct[of 5001] by simp
  have l: "length ?ids - 5000 = 1" by simp
  have "set' (addAll ?ids initial_knownTxIds) = set (drop (length ?ids - 5000) ?ids)"
    using C8_dedup_keeps_last_5000[of "''b''" initial_knownTxIds "''b''" "[]" ?ids] h by blast
  then have a: "set' (addAll ?ids initial_knownTxIds) = set (drop 1 ?ids)"
    by (simp only: l)
  have b: "tryAdd ''b'' \<lparr>queue = [''b''], set' = {''b''}, capacity = 1\<rparr>
       = (False, \<lparr>queue = [''b''], set' = {''b''}, capacity = 1\<rparr>)"
    using C8_dedup_keeps_last_5000[of "''b''" "\<lparr>queue = [''b''], set' = {''b''}, capacity = 1\<rparr>"]
    by simp
  have c: "tryAdd ''c'' \<lparr>queue = [''b''], set' = {''b''}, capacity = 1\<rparr>
       = (True, \<lparr>queue = [''c''], set' = {''c''}, capacity = 1\<rparr>)"
    using C8_dedup_keeps_last_5000[of "''c''" "\<lparr>queue = [''b''], set' = {''b''}, capacity = 1\<rparr>" "''b''" "[]"]
    by (simp add: size'_def)
  have d: "tryAdd ''c'' \<lparr>queue = [''b''], set' = {''b''}, capacity = 2\<rparr>
       = (True, \<lparr>queue = [''b'', ''c''], set' = {''c'', ''b''}, capacity = 2\<rparr>)"
    using C8_dedup_keeps_last_5000[of "''c''" "\<lparr>queue = [''b''], set' = {''b''}, capacity = 2\<rparr>"]
    by (simp add: size'_def)
  from a b c d show ?thesis by blast
qed

section \<open>Hexadecimal strings\<close>

lemma foldl_append_concat:
  "foldl (\<lambda>out b. out @ f b) acc bs = acc @ concat (map f bs)"
  by (induction bs arbitrary: acc) simp_all

lemma bytesToHex_concat: "bytesToHex bs = concat (map (\<lambda>b. HEX (unat b)) bs)"
  by (simp add: bytesToHex_def foldl_append_concat)


lemma bytesToHex_Cons: "bytesToHex (x # xs) = HEX (unat x) @ bytesToHex xs"
  by (simp add: bytesToHex_concat)

lemma bytesToHex_Nil: "bytesToHex [] = []"
  by (simp add: bytesToHex_concat)

lemma toString16_1: "n < 16 \<Longrightarrow> toString16 n = [hexDigit n]"
  by (simp add: toString16.simps)

lemma toString16_2: "16 \<le> n \<Longrightarrow> n < 256 \<Longrightarrow> toString16 n = [hexDigit (n div 16), hexDigit (n mod 16)]"
  by (subst toString16.simps) (simp add: toString16_1 less_mult_imp_div_less)

lemma mod256_div16: "(n::nat) mod 256 div 16 = n div 16 mod 16"
proof -
  have "n mod (16 * 16) = 16 * (n div 16 mod 16) + n mod 16" by (rule mod_mult2_eq)
  then have "n mod 256 = n mod 16 + (n div 16 mod 16) * 16" by simp
  then show ?thesis by simp
qed

lemma div16_facts:
  fixes n :: nat
  shows "n div 16 div 16 = n div 256" "n div 16 div 256 = n div 4096"
    "n div 256 div 16 = n div 4096" "n mod 256 div 16 = n div 16 mod 16"
    "n mod 256 mod 16 = n mod 16"
  by (simp_all add: div_mult2_eq[symmetric] mod_mod_cancel mod256_div16)

lemma toString16_3: "256 \<le> n \<Longrightarrow> n < 4096 \<Longrightarrow>
  toString16 n = [hexDigit (n div 256), hexDigit (n div 16 mod 16), hexDigit (n mod 16)]"
  by (subst toString16.simps) (simp add: toString16_2 less_mult_imp_div_less div16_facts)

lemma toString16_4: "4096 \<le> n \<Longrightarrow> n < 65536 \<Longrightarrow>
  toString16 n = [hexDigit (n div 4096), hexDigit (n div 256 mod 16), hexDigit (n div 16 mod 16), hexDigit (n mod 16)]"
  by (subst toString16.simps) (simp add: toString16_3 less_mult_imp_div_less div16_facts)

lemma hexDigit_0: "hexDigit 0 = CHR ''0''"
  by (simp add: hexDigit_def)

lemma HEX_byte: "n < 256 \<Longrightarrow> HEX n = [hexDigit (n div 16), hexDigit (n mod 16)]"
  by (cases "n < 16") (simp_all add: HEX_def padStart_def toString16_1 toString16_2 hexDigit_0)

lemma padStart4:
  "padStart 4 c [w] = [c, c, c, w]" "padStart 4 c [x, w] = [c, c, x, w]"
  "padStart 4 c [y, x, w] = [c, y, x, w]" "padStart 4 c [z, y, x, w] = [z, y, x, w]"
  by (simp_all add: padStart_def eval_nat_numeral)

lemma pad4_toString16:
  assumes "n < 65536"
  shows "padStart 4 CHR ''0'' (toString16 n) = HEX (n div 256) @ HEX (n mod 256)"
proof -
  have a: "n div 256 < 256" "n mod 256 < 256" using assms by simp_all
  have H: "HEX (n div 256) @ HEX (n mod 256)
     = [hexDigit (n div 4096), hexDigit (n div 256 mod 16), hexDigit (n div 16 mod 16), hexDigit (n mod 16)]"
    by (simp only: HEX_byte[OF a(1)] HEX_byte[OF a(2)] div16_facts append_Cons append_Nil)
  consider "n < 16" | "16 \<le> n" "n < 256" | "256 \<le> n" "n < 4096" | "4096 \<le> n" "n < 65536"
    using assms by linarith
  then show ?thesis
  proof cases
    case 1
    then have z: "n div 4096 = 0" "n div 256 mod 16 = 0" "n div 16 mod 16 = 0" "n mod 16 = n" by simp_all
    show ?thesis unfolding H by (simp only: toString16_1[OF 1] padStart4 z hexDigit_0)
  next
    case 2
    then have z: "n div 4096 = 0" "n div 256 mod 16 = 0" "n div 16 mod 16 = n div 16" by simp_all
    show ?thesis unfolding H by (simp only: toString16_2[OF 2] padStart4 z hexDigit_0)
  next
    case 3
    then have z: "n div 4096 = 0" "n div 256 mod 16 = n div 256" by simp_all
    show ?thesis unfolding H by (simp only: toString16_3[OF 3] padStart4 z hexDigit_0)
  next
    case 4
    show ?thesis unfolding H by (simp only: toString16_4[OF 4] padStart4)
  qed
qed

lemma pad2_toString16: "n < 256 \<Longrightarrow> padStart 2 CHR ''0'' (toString16 n) = HEX n"
  by (simp add: HEX_def)

section \<open>The payload frame\<close>

lemma set_at_tail:
  "length w = off \<Longrightarrow> length src \<le> k \<Longrightarrow>
   set_at (w @ replicate k 0) src off = Inr ((w @ src) @ replicate (k - length src) 0)"
  by (simp add: set_at_def)

lemma update_tail:
  "length w = off \<Longrightarrow> 1 \<le> k \<Longrightarrow>
   (w @ replicate k (0::byte))[off := v] = (w @ [v]) @ replicate (k - 1) 0"
  by (cases k) (simp_all add: list_update_append)

lemma writeU16_tail:
  "length w = off \<Longrightarrow> 2 \<le> k \<Longrightarrow>
   writeU16 (w @ replicate k 0) off v = (w @ u16le v) @ replicate (k - 2) 0"
proof -
  assume a: "length w = off" "2 \<le> k"
  then obtain j where k: "k = Suc (Suc j)" by (metis One_nat_def Suc_1 Suc_le_D Suc_le_mono)
  show ?thesis using a(1) by (simp add: writeU16_def u16le_def k list_update_append)
qed

lemma bindE_Inr [simp]: "bindE (Inr x) f = f x"
  by (simp add: bindE_def)

lemma bindE_Inl [simp]: "bindE (Inl e) f = Inl e"
  by (simp add: bindE_def)

lemma length_u16le [simp]: "length (u16le v) = 2"
  by (simp add: u16le_def)

lemma toBytes_frame:
  assumes "wf_payload p"
  shows "toBytes p = Inr (frame p)"
proof -
  let ?n = "length (data p)"
  have l: "length (marker p) = 4" "length (prefix' p) = 4" "length (id' p) = 33"
    "length (publicKey p) = 33" "length (signature p) = 64"
    using assms by (simp_all add: wf_payload_def MARKER_def)
  have s1: "set_at (replicate (HEADER_SIZE + ?n) 0) (marker p) 0
            = Inr (marker p @ replicate (139 + ?n) 0)"
    using set_at_tail[of "[]" 0 "marker p" "HEADER_SIZE + ?n"] l by (simp add: HEADER_SIZE_def)
  have s2: "(marker p @ replicate (139 + ?n) 0)[4 := word_of_nat (version p)]
            = (marker p @ [word_of_nat (version p)]) @ replicate (138 + ?n) 0"
    using update_tail[of "marker p" 4 "139 + ?n"] l by simp
  let ?w2 = "marker p @ [word_of_nat (version p)]"
  have s3: "set_at (?w2 @ replicate (138 + ?n) 0) (prefix' p) 5
            = Inr ((?w2 @ prefix' p) @ replicate (134 + ?n) 0)"
    using set_at_tail[of ?w2 5 "prefix' p" "138 + ?n"] l by simp
  let ?w3 = "?w2 @ prefix' p"
  have s4: "writeU16 (?w3 @ replicate (134 + ?n) 0) 9 (type' p)
            = (?w3 @ u16le (type' p)) @ replicate (132 + ?n) 0"
    using writeU16_tail[of ?w3 9 "134 + ?n"] l by simp
  let ?w4 = "?w3 @ u16le (type' p)"
  have s5: "set_at (?w4 @ replicate (132 + ?n) 0) (id' p) 11
            = Inr ((?w4 @ id' p) @ replicate (99 + ?n) 0)"
    using set_at_tail[of ?w4 11 "id' p" "132 + ?n"] l by simp
  let ?w5 = "?w4 @ id' p"
  have s6: "set_at (?w5 @ replicate (99 + ?n) 0) (publicKey p) 44
            = Inr ((?w5 @ publicKey p) @ replicate (66 + ?n) 0)"
    using set_at_tail[of ?w5 44 "publicKey p" "99 + ?n"] l by simp
  let ?w6 = "?w5 @ publicKey p"
  have s7: "set_at (?w6 @ replicate (66 + ?n) 0) (signature p) 77
            = Inr ((?w6 @ signature p) @ replicate (2 + ?n) 0)"
    using set_at_tail[of ?w6 77 "signature p" "66 + ?n"] l by simp
  let ?w7 = "?w6 @ signature p"
  have s8: "writeU16 (?w7 @ replicate (2 + ?n) 0) 141 (?n AND 0xffff)
            = (?w7 @ u16le (?n AND 0xffff)) @ replicate ?n 0"
    using writeU16_tail[of ?w7 141 "2 + ?n"] l by simp
  let ?w8 = "?w7 @ u16le (?n AND 0xffff)"
  have s9: "set_at (?w8 @ replicate ?n 0) (data p) 143 = Inr (?w8 @ data p)"
    using set_at_tail[of ?w8 143 "data p" ?n] l by simp
  show ?thesis
    unfolding toBytes_def Let_def
    by (simp only: s1 bindE_Inr s2 s3 s4 s5 s6 s7 s8 s9) (simp add: frame_def)
qed

lemma readU16_bound: "readU16 buf off < 65536"
proof -
  have "unat (at buf off) < 256" "unat (at buf (off + 1)) < 256"
    using unsigned_less[of "at buf off"] unsigned_less[of "at buf (off + 1)"] by simp_all
  then show ?thesis by (simp add: readU16_def)
qed

lemma unat_byte_eq_1: "unat (w::byte) = Suc 0 \<longleftrightarrow> w = 1"
  using word_unat_eq_iff[of w 1] by simp

lemma marker_matches_take:
  assumes "4 \<le> length bs"
  shows "marker_matches (subarray bs 0 4) \<longleftrightarrow> take 4 bs = MARKER"
proof -
  obtain a b c d rest where bs: "bs = a # b # c # d # rest"
    using assms by (cases bs; cases "tl bs"; cases "tl (tl bs)"; cases "tl (tl (tl bs))") auto
  show ?thesis
    by (auto simp add: bs marker_matches_def subarray_def MARKER_def)
qed

lemma fromBytes_cases:
  "fromBytes bs =
     (if length bs < 143 then Inl (Error ''Invalid payload size'')
      else if take 4 bs \<noteq> MARKER then Inl (Error ''Bad marker'')
      else if bs ! 4 \<noteq> 1 then Inl (Error ''Bad version'')
      else if length bs - 143 < readU16 bs 141 then Inl (Error ''Data length mismatch'')
      else Inr (parsed bs))"
proof (cases "length bs < 143")
  case True
  then show ?thesis by (simp add: fromBytes_def HEADER_SIZE_def)
next
  case False
  then have len: "143 \<le> length bs" by simp
  have m: "marker_matches (subarray bs 0 4) \<longleftrightarrow> take 4 bs = MARKER"
    using len by (intro marker_matches_take) simp
  have v: "unat (at bs 4) \<noteq> PROTOCOL_VERSION \<longleftrightarrow> bs ! 4 \<noteq> 1"
    using len by (simp add: at_def PROTOCOL_VERSION_def unat_byte_eq_1)
  have i: "Identifier_fromBytes (subarray bs 11 44)
           = Inr \<lparr>hex = bytesToHex (take 33 (drop 11 bs)), bytes = take 33 (drop 11 bs)\<rparr>"
    using len by (simp add: Identifier_fromBytes_def subarray_def)
  have d: "length (subarray bs 143 (143 + readU16 bs 141)) \<noteq> readU16 bs 141
           \<longleftrightarrow> length bs - 143 < readU16 bs 141"
    using len by (auto simp add: subarray_def)
  have t: "readU16 bs 9 mod 2 ^ 32 = readU16 bs 9" "\<not> 65535 < readU16 bs 9"
    using readU16_bound[of bs 9] by simp_all
  have n: "new_Payload (subarray bs 5 9) (readU16 bs 9)
             \<lparr>hex = bytesToHex (take 33 (drop 11 bs)), bytes = take 33 (drop 11 bs)\<rparr>
             (subarray bs 44 77) (subarray bs 143 (143 + readU16 bs 141))
           = Inr ((parsed bs)\<lparr>signature := replicate 64 0\<rparr>)"
    using len t by (simp add: new_Payload_def subarray_def parsed_def)
  show ?thesis
    using len unfolding fromBytes_def Let_def
    by (simp only: m v i d n bindE_Inr HEADER_SIZE_def)
       (simp add: parsed_def subarray_def)
qed

lemma unat_byte_of_nat: "n < 256 \<Longrightarrow> unat (word_of_nat n :: byte) = n"
  by (simp add: unat_of_nat)

lemma readU16_u16le:
  assumes "length a = off"
  shows "readU16 (a @ u16le v @ rest) off = v mod 65536"
proof -
  have lo: "unat (word_of_nat (v mod 65536 mod 256) :: byte) = v mod 65536 mod 256"
    by (rule unat_byte_of_nat) simp
  have hi: "unat (word_of_nat (v mod 65536 div 256) :: byte) = v mod 65536 div 256"
    by (rule unat_byte_of_nat) (simp add: less_mult_imp_div_less)
  have "readU16 (a @ u16le v @ rest) off
        = v mod 65536 mod 256 + 256 * (v mod 65536 div 256)"
    using assms by (simp add: readU16_def at_def nth_append u16le_def lo hi)
  then show ?thesis by simp
qed

lemma take_drop_mid:
  "length a = n \<Longrightarrow> length x = k \<Longrightarrow> take k (drop n (a @ x @ rest)) = x"
  by simp

lemma and_ffff: "n \<le> 65535 \<Longrightarrow> n AND 0xffff = (n::nat)"
proof -
  assume "n \<le> 65535"
  then have "take_bit 16 n = n" by (simp add: take_bit_nat_eq_self_iff)
  moreover have "(0xffff::nat) = mask 16" by (simp add: mask_eq_exp_minus_1)
  ultimately show ?thesis by (simp add: take_bit_eq_mask)
qed

lemma length_MARKER [simp]: "length MARKER = 4"
  by (simp add: MARKER_def)

lemma parsed_frame:
  assumes wf: "wf_payload p" and dl: "length (data p) \<le> 65535"
  shows "parsed (frame p) = p"
    and "take 4 (frame p) = MARKER"
    and "frame p ! 4 = 1"
    and "readU16 (frame p) 141 = length (data p)"
    and "length (frame p) = 143 + length (data p)"
proof -
  let ?n = "length (data p)"
  let ?L = "u16le (?n AND 0xffff)"
  have l: "length (marker p) = 4" "length (prefix' p) = 4" "length (id' p) = 33"
    "length (publicKey p) = 33" "length (signature p) = 64" "marker p = MARKER"
    "version p = 1" "type' p mod 65536 = type' p"
    using wf by (simp_all add: wf_payload_def MARKER_def PROTOCOL_VERSION_def)
  have a: "?n AND 0xffff = ?n" using dl by (rule and_ffff)
  have f1: "frame p = (marker p @ [word_of_nat (version p)]) @ prefix' p @
              (u16le (type' p) @ id' p @ publicKey p @ signature p @ ?L @ data p)"
    by (simp add: frame_def)
  have f2: "frame p = (marker p @ [word_of_nat (version p)] @ prefix' p) @ u16le (type' p) @
              (id' p @ publicKey p @ signature p @ ?L @ data p)"
    by (simp add: frame_def)
  have f3: "frame p = (marker p @ [word_of_nat (version p)] @ prefix' p @ u16le (type' p)) @ id' p @
              (publicKey p @ signature p @ ?L @ data p)"
    by (simp add: frame_def)
  have f4: "frame p = (marker p @ [word_of_nat (version p)] @ prefix' p @ u16le (type' p) @ id' p) @
              publicKey p @ (signature p @ ?L @ data p)"
    by (simp add: frame_def)
  have f5: "frame p = (marker p @ [word_of_nat (version p)] @ prefix' p @ u16le (type' p) @ id' p @
              publicKey p) @ signature p @ (?L @ data p)"
    by (simp add: frame_def)
  have f6: "frame p = (marker p @ [word_of_nat (version p)] @ prefix' p @ u16le (type' p) @ id' p @
              publicKey p @ signature p) @ ?L @ data p"
    by (simp add: frame_def)
  have f7: "frame p = (marker p @ [word_of_nat (version p)] @ prefix' p @ u16le (type' p) @ id' p @
              publicKey p @ signature p @ ?L) @ data p @ []"
    by (simp add: frame_def)
  have pfx: "take 4 (drop 5 (frame p)) = prefix' p"
    by (subst f1, rule take_drop_mid) (simp_all add: l)
  have ty: "readU16 (frame p) 9 = type' p"
    by (subst f2, subst readU16_u16le) (simp_all add: l)
  have idb: "take 33 (drop 11 (frame p)) = id' p"
    by (subst f3, rule take_drop_mid) (simp_all add: l)
  have pk: "take 33 (drop 44 (frame p)) = publicKey p"
    by (subst f4, rule take_drop_mid) (simp_all add: l)
  have sg: "take 64 (drop 77 (frame p)) = signature p"
    by (subst f5, rule take_drop_mid) (simp_all add: l)
  show rl: "readU16 (frame p) 141 = ?n"
    using dl by (subst f6, subst readU16_u16le) (simp_all add: l a)
  have d: "take ?n (drop 143 (frame p)) = data p"
    by (subst f7, rule take_drop_mid) (simp_all add: l)
  show "parsed (frame p) = p"
    unfolding parsed_def by (simp only: pfx ty idb pk sg rl d) (simp add: l PROTOCOL_VERSION_def)
  show "take 4 (frame p) = MARKER" by (simp add: frame_def l)
  show "frame p ! 4 = 1" by (simp add: frame_def l nth_append)
  show "length (frame p) = 143 + ?n" by (simp add: frame_def l)
qed

lemma fromBytes_frame:
  assumes "wf_payload p" "length (data p) \<le> 65535"
  shows "fromBytes (frame p) = Inr p"
  using parsed_frame[OF assms] by (simp add: fromBytes_cases)

lemma readU16_append: "off + 1 < length bs \<Longrightarrow> readU16 (bs @ s) off = readU16 bs off"
  by (simp add: readU16_def at_def nth_append)

lemma fromBytes_append:
  assumes "fromBytes bs = Inr q"
  shows "fromBytes (bs @ s) = Inr q"
proof -
  from assms have c: "143 \<le> length bs" "take 4 bs = MARKER" "bs ! 4 = 1"
    "readU16 bs 141 \<le> length bs - 143" "q = parsed bs"
    by (auto simp add: fromBytes_cases split: if_splits)
  have r: "readU16 (bs @ s) 141 = readU16 bs 141" "readU16 (bs @ s) 9 = readU16 bs 9"
    using c(1) by (simp_all add: readU16_append)
  have p: "parsed (bs @ s) = parsed bs"
    using c(1,4) by (simp add: parsed_def r)
  show ?thesis
    using c by (simp add: fromBytes_cases[of "bs @ s"] r p nth_append)
qed

lemma bindE_eq_Inr: "bindE m f = Inr y \<longleftrightarrow> (\<exists>x. m = Inr x \<and> f x = Inr y)"
  by (cases m) simp_all

lemma set_at_Inr:
  assumes "set_at out src off = Inr out'"
  shows "length out' = length out" and "take off out' = take off out"
    and "k \<le> off \<Longrightarrow> take k out' = take k out"
proof -
  from assms have le: "length src + off \<le> length out"
    and eq: "out' = take off out @ src @ drop (off + length src) out"
    by (auto simp: set_at_def split: if_splits)
  show "length out' = length out" using le by (simp add: eq)
  show t: "take off out' = take off out" using le by (simp add: eq)
  show "take k out' = take k out" if "k \<le> off"
  proof -
    have "take k out' = take k (take off out')" using that by (simp add: min_def)
    also have "\<dots> = take k (take off out)" by (simp only: t)
    also have "\<dots> = take k out" using that by (simp add: min_def)
    finally show ?thesis .
  qed
qed

lemma writeU16_props:
  "length (writeU16 buf off v) = length buf"
  "k \<le> off \<Longrightarrow> take k (writeU16 buf off v) = take k buf"
  "off + 1 < length buf \<Longrightarrow> readU16 (writeU16 buf off v) off = v mod 65536"
proof -
  show "length (writeU16 buf off v) = length buf" by (simp add: writeU16_def)
  show "take k (writeU16 buf off v) = take k buf" if "k \<le> off"
    using that by (simp add: writeU16_def)
  show "readU16 (writeU16 buf off v) off = v mod 65536" if "off + 1 < length buf"
  proof -
    have lo: "unat (word_of_nat (v mod 65536 mod 256) :: byte) = v mod 65536 mod 256"
      by (rule unat_byte_of_nat) simp
    have hi: "unat (word_of_nat (v mod 65536 div 256) :: byte) = v mod 65536 div 256"
      by (rule unat_byte_of_nat) (simp add: less_mult_imp_div_less)
    have "readU16 (writeU16 buf off v) off = v mod 65536 mod 256 + 256 * (v mod 65536 div 256)"
      using that by (simp add: readU16_def writeU16_def at_def lo hi)
    then show ?thesis by simp
  qed
qed

lemma readU16_take:
  "off + 1 < k \<Longrightarrow> take k a = take k b \<Longrightarrow> k \<le> length a \<Longrightarrow> k \<le> length b \<Longrightarrow>
   readU16 a off = readU16 b off"
proof -
  assume a: "off + 1 < k" "take k a = take k b" "k \<le> length a" "k \<le> length b"
  have "a ! off = take k a ! off" "a ! (off + 1) = take k a ! (off + 1)"
       "b ! off = take k b ! off" "b ! (off + 1) = take k b ! (off + 1)"
    using a(1) by simp_all
  then have "a ! off = b ! off" "a ! (off + 1) = b ! (off + 1)" using a(2) by simp_all
  then show ?thesis using a by (simp add: readU16_def at_def)
qed

text \<open>
  Whatever the lengths of the other fields, when \<open>toBytes\<close> succeeds on a payload that
  carries the marker and version 1 and at most 65535 bytes of data, \<open>fromBytes\<close> accepts
  the result: the later writes never reach back into the first five bytes, and the data is
  written after the length field.
\<close>

lemma toBytes_accepted:
  assumes m: "marker p = MARKER" and v: "version p mod 256 = 1"
    and n: "length (data p) \<le> 65535" and b: "toBytes p = Inr b"
  shows "fromBytes b = Inr (parsed b)"
proof -
  let ?n = "length (data p)"
  from b obtain o1 o3 o5 o6 o7 where
    s1: "set_at (replicate (HEADER_SIZE + ?n) 0) (marker p) 0 = Inr o1" and
    s3: "set_at (o1[4 := word_of_nat (version p)]) (prefix' p) 5 = Inr o3" and
    s5: "set_at (writeU16 o3 9 (type' p)) (id' p) 11 = Inr o5" and
    s6: "set_at o5 (publicKey p) 44 = Inr o6" and
    s7: "set_at o6 (signature p) 77 = Inr o7" and
    s9: "set_at (writeU16 o7 141 (?n AND 0xffff)) (data p) 143 = Inr b"
    unfolding toBytes_def Let_def bindE_eq_Inr by blast
  let ?o2 = "o1[4 := word_of_nat (version p)]"
  let ?o4 = "writeU16 o3 9 (type' p)"
  let ?o8 = "writeU16 o7 141 (?n AND 0xffff)"
  have l1: "length o1 = 143 + ?n" using set_at_Inr(1)[OF s1] by (simp add: HEADER_SIZE_def)
  have l3: "length o3 = 143 + ?n" using set_at_Inr(1)[OF s3] l1 by simp
  have l5: "length o5 = 143 + ?n" using set_at_Inr(1)[OF s5] l3 by (simp add: writeU16_props)
  have l6: "length o6 = 143 + ?n" using set_at_Inr(1)[OF s6] l5 by simp
  have l7: "length o7 = 143 + ?n" using set_at_Inr(1)[OF s7] l6 by simp
  have l8: "length ?o8 = 143 + ?n" using l7 by (simp add: writeU16_props)
  have lb: "length b = 143 + ?n" using set_at_Inr(1)[OF s9] l8 by simp
  have o1: "o1 = MARKER @ replicate (139 + ?n) 0"
    using s1 by (simp add: set_at_def m HEADER_SIZE_def split: if_splits)
  have h2: "take 5 ?o2 = MARKER @ [1]"
  proof -
    have "(word_of_nat (version p) :: byte) = 1"
    proof -
      have "(word_of_nat (version p) :: byte) = word_of_nat (version p mod 256)"
        by (simp add: word_of_nat_eq_iff take_bit_eq_mod)
      then show ?thesis by (simp add: v)
    qed
    then have "?o2 = (MARKER @ [1]) @ replicate (139 + ?n - 1) 0"
      using update_tail[of MARKER 4 "139 + ?n" "1"] by (simp add: o1)
    then show ?thesis by simp
  qed
  have h3: "take 5 o3 = MARKER @ [1]" using set_at_Inr(2)[OF s3] h2 by simp
  have h4: "take 5 ?o4 = MARKER @ [1]" using h3 by (simp add: writeU16_props)
  have h5: "take 5 o5 = MARKER @ [1]" using set_at_Inr(3)[OF s5, of 5] h4 by simp
  have h6: "take 5 o6 = MARKER @ [1]" using set_at_Inr(3)[OF s6, of 5] h5 by simp
  have h7: "take 5 o7 = MARKER @ [1]" using set_at_Inr(3)[OF s7, of 5] h6 by simp
  have h8: "take 5 ?o8 = MARKER @ [1]" using h7 by (simp add: writeU16_props)
  have hb: "take 5 b = MARKER @ [1]" using set_at_Inr(3)[OF s9, of 5] h8 by simp
  have r8: "readU16 ?o8 141 = ?n"
    using l7 n by (simp add: writeU16_props and_ffff)
  have rb: "readU16 b 141 = ?n"
  proof -
    have "readU16 b 141 = readU16 ?o8 141"
      using set_at_Inr(2)[OF s9] lb l8 by (intro readU16_take[where k = 143]) simp_all
    then show ?thesis by (simp only: r8)
  qed
  have t4: "take 4 b = MARKER"
  proof -
    have "take 4 b = take 4 (take 5 b)" by simp
    then show ?thesis by (simp only: hb) simp
  qed
  have b4: "b ! 4 = 1"
  proof -
    have "b ! 4 = take 5 b ! 4" by simp
    then show ?thesis by (simp only: hb) (simp add: nth_append)
  qed
  show ?thesis using lb t4 b4 rb by (simp add: fromBytes_cases)
qed

section \<open>The signature preimage\<close>

text \<open>
  Claim C1, as amended. For a payload whose version fits a byte and whose type fits 16
  bits, \<open>buildMessage\<close> is the lowercase hexadecimal concatenation of marker, version
  (1 byte), prefix, type, id, publicKey and data, followed by \<open>outpointIds\<close>, where the
  type is written as 2 bytes big-endian (most significant byte first: it is
  \<open>type.toString(16).padStart(4, "0")\<close>), not little-endian. The signature is not part of
  the preimage: replacing it leaves the string unchanged.
\<close>

theorem C1_preimage_type_is_big_endian:
  "version p < 256 \<and> type' p < 65536 \<longrightarrow>
     buildMessage p outIds =
       bytesToHex (marker p) @ bytesToHex [word_of_nat (version p)] @ bytesToHex (prefix' p) @
       bytesToHex (u16be (type' p)) @ bytesToHex (id' p) @ bytesToHex (publicKey p) @
       bytesToHex (data p) @ outIds
     \<and> buildMessage (p\<lparr>signature := sg\<rparr>) outIds = buildMessage p outIds"
proof (intro impI, elim conjE)
  assume v: "version p < 256" and t: "type' p < 65536"
  have hi: "type' p div 256 < 256" using t by simp
  have "bytesToHex (u16be (type' p)) = HEX (type' p div 256) @ HEX (type' p mod 256)"
    using hi by (simp add: u16be_def bytesToHex_Cons bytesToHex_Nil unat_byte_of_nat)
  moreover have "bytesToHex [word_of_nat (version p)] = HEX (version p)"
    using v by (simp add: bytesToHex_Cons bytesToHex_Nil unat_byte_of_nat)
  ultimately show "buildMessage p outIds =
       bytesToHex (marker p) @ bytesToHex [word_of_nat (version p)] @ bytesToHex (prefix' p) @
       bytesToHex (u16be (type' p)) @ bytesToHex (id' p) @ bytesToHex (publicKey p) @
       bytesToHex (data p) @ outIds
     \<and> buildMessage (p\<lparr>signature := sg\<rparr>) outIds = buildMessage p outIds"
    using v t by (simp add: buildMessage_def pad4_toString16 pad2_toString16)
qed

lemma padStart2: "padStart 2 c [w] = [c, w]" "padStart 2 c [x, w] = [x, w]"
  by (simp_all add: padStart_def)

lemma examplePayload_code_type_digits: "take 4 (drop 18 (buildMessage examplePayload ''aa'')) = ''0001''"
  by (simp add: buildMessage_def examplePayload_def MARKER_def PROTOCOL_VERSION_def bytesToHex_Cons bytesToHex_Nil HEX_byte
      padStart4 padStart2 toString16_1 hexDigit_def)

lemma examplePayload_spec_type_digits: "take 4 (drop 18 (spec_preimage examplePayload ''aa'')) = ''0100''"
  by (simp add: spec_preimage_def examplePayload_def MARKER_def PROTOCOL_VERSION_def bytesToHex_Cons bytesToHex_Nil HEX_byte
      writeU16_def hexDigit_def)

text \<open>
  The claim as stated fails on the sample payload of type 1: the code writes the type as
  \<open>0001\<close>, the little-endian encoding of the specification is \<open>0100\<close>.
\<close>

theorem C1_preimage_counterexample:
  "buildMessage examplePayload ''aa'' \<noteq> spec_preimage examplePayload ''aa''"
  using examplePayload_code_type_digits examplePayload_spec_type_digits by auto

theorem C1_preimage_type_is_big_endian_witness:
  "buildMessage examplePayload ''aa'' =
     ''4b53504b01544553540001020000000000000000000000000000000000000000000000000000000000000001031111111111111111111111111111111111111111111111111111111111111111deadbeefaa''"
proof -
  let ?p = examplePayload
  have h: "version ?p < 256 \<and> type' ?p < 65536"
    by (simp add: examplePayload_def PROTOCOL_VERSION_def)
  have "buildMessage ?p ''aa'' =
       bytesToHex (marker ?p) @ bytesToHex [word_of_nat (version ?p)] @ bytesToHex (prefix' ?p) @
       bytesToHex (u16be (type' ?p)) @ bytesToHex (id' ?p) @ bytesToHex (publicKey ?p) @
       bytesToHex (data ?p) @ ''aa''"
    using C1_preimage_type_is_big_endian[of ?p "''aa''" "[]"] h by blast
  also have "\<dots> = ''4b53504b01544553540001020000000000000000000000000000000000000000000000000000000000000001031111111111111111111111111111111111111111111111111111111111111111deadbeefaa''"
    by (simp add: examplePayload_def MARKER_def PROTOCOL_VERSION_def bytesToHex_Cons
        bytesToHex_Nil HEX_byte u16be_def hexDigit_def)
  finally show ?thesis .
qed

section \<open>Parsing and serialising the frame\<close>

lemma fromBytes_fails_iff:
  "isl (fromBytes bs) \<longleftrightarrow>
     length bs < 143 \<or> take 4 bs \<noteq> MARKER \<or> bs ! 4 \<noteq> 1 \<or>
     length bs - 143 < readU16 bs 141"
  by (simp add: fromBytes_cases)

lemma readU16_update:
  "i \<noteq> off \<Longrightarrow> i \<noteq> off + 1 \<Longrightarrow> readU16 (bs[i := x]) off = readU16 bs off"
  by (simp add: readU16_def at_def)

text \<open>
  Claim C3, as amended. \<open>Payload.fromBytes\<close> fails if and only if the input is shorter
  than 143 bytes, or its first 4 bytes are not the marker, or the version byte is not 1, or
  fewer than \<open>dataLen\<close> bytes follow the 143-byte header. The first bytes of the id
  (offset 11) and of the public key (offset 44) are not inspected: overwriting them never
  changes whether parsing fails.
\<close>

theorem C3_fromBytes_fails_iff:
  "(isl (fromBytes bs) \<longleftrightarrow>
      length bs < 143 \<or> take 4 bs \<noteq> MARKER \<or> bs ! 4 \<noteq> 1 \<or>
      length bs - 143 < readU16 bs 141)
   \<and> isl (fromBytes (bs[11 := x, 44 := y])) = isl (fromBytes bs)"
proof
  show "isl (fromBytes bs) \<longleftrightarrow>
      length bs < 143 \<or> take 4 bs \<noteq> MARKER \<or> bs ! 4 \<noteq> 1 \<or>
      length bs - 143 < readU16 bs 141"
    by (rule fromBytes_fails_iff)
  have "take 4 (bs[11 := x, 44 := y]) = take 4 bs" by simp
  moreover have "bs[11 := x, 44 := y] ! 4 = bs ! 4" by simp
  moreover have "readU16 (bs[11 := x, 44 := y]) 141 = readU16 bs 141"
    by (simp add: readU16_update)
  ultimately show "isl (fromBytes (bs[11 := x, 44 := y])) = isl (fromBytes bs)"
    by (simp add: fromBytes_fails_iff)
qed

lemma minimalFrame_parses: "fromBytes minimalFrame = Inr (parsed minimalFrame)"
  by (simp add: fromBytes_cases minimalFrame_def MARKER_def readU16_def at_def nth_append)

text \<open>
  The claim as stated fails on the shortest frame: its id and public key start with
  \<open>0x00\<close>, and it parses.
\<close>

theorem C3_fromBytes_counterexample:
  "\<not> isl (fromBytes minimalFrame) \<and> minimalFrame ! 11 \<notin> {0x02, 0x03} \<and>
   minimalFrame ! 44 \<notin> {0x02, 0x03}"
  by (simp add: minimalFrame_parses) (simp add: minimalFrame_def MARKER_def nth_append)

theorem C3_fromBytes_fails_iff_witness:
  "\<not> isl (fromBytes minimalFrame) \<and> isl (fromBytes (take 142 minimalFrame))
   \<and> isl (fromBytes (minimalFrame[0 := 0])) \<and> isl (fromBytes (minimalFrame[4 := 2]))
   \<and> isl (fromBytes (minimalFrame[141 := 1]))
   \<and> \<not> isl (fromBytes (minimalFrame[11 := 7, 44 := 9]))"
proof -
  have m: "length minimalFrame = 143" "take 4 minimalFrame = MARKER" "minimalFrame ! 4 = 1"
    "readU16 minimalFrame 141 = 0"
    by (simp_all add: minimalFrame_def MARKER_def readU16_def at_def nth_append)
  have a: "\<not> isl (fromBytes minimalFrame)"
    using C3_fromBytes_fails_iff[of minimalFrame] m by simp
  have b: "isl (fromBytes (take 142 minimalFrame))"
    using C3_fromBytes_fails_iff[of "take 142 minimalFrame"] m by simp
  have c: "isl (fromBytes (minimalFrame[0 := 0]))"
    using C3_fromBytes_fails_iff[of "minimalFrame[0 := 0]"]
    by (simp add: minimalFrame_def MARKER_def)
  have d: "isl (fromBytes (minimalFrame[4 := 2]))"
    using C3_fromBytes_fails_iff[of "minimalFrame[4 := 2]"] m by simp
  have e: "isl (fromBytes (minimalFrame[141 := 1]))"
    using C3_fromBytes_fails_iff[of "minimalFrame[141 := 1]"] m
    by (simp add: readU16_def at_def)
  have f: "\<not> isl (fromBytes (minimalFrame[11 := 7, 44 := 9]))"
    using C3_fromBytes_fails_iff[of minimalFrame 7 9] a by simp
  from a b c d e f show ?thesis by blast
qed

text \<open>
  Claim C5. For a 4-byte prefix, a type of at most 65535, an identifier of 33 bytes, a
  33-byte public key and at most 65535 bytes of data, the constructor succeeds, \<open>toBytes\<close>
  succeeds on its result, and \<open>fromBytes\<close> of those bytes is the constructed payload again,
  field by field, with its signature of 64 zero bytes.
\<close>

theorem C5_frame_roundtrip:
  "length pfx = 4 \<and> ty \<le> 65535 \<and> length (bytes ident) = 33 \<and> length pk = 33 \<and>
   length d \<le> 65535 \<longrightarrow>
   (\<exists>p b. new_Payload pfx ty ident pk d = Inr p \<and> toBytes p = Inr b \<and> fromBytes b = Inr p
          \<and> prefix' p = pfx \<and> type' p = ty \<and> id' p = bytes ident \<and> publicKey p = pk
          \<and> data p = d \<and> signature p = replicate 64 0)"
proof (intro impI, elim conjE)
  assume a: "length pfx = 4" "ty \<le> 65535" "length (bytes ident) = 33" "length pk = 33"
    "length d \<le> 65535"
  let ?p = "\<lparr>marker = MARKER, version = PROTOCOL_VERSION, prefix' = pfx, type' = ty,
             id' = bytes ident, publicKey = pk, signature = replicate 64 0, data = d\<rparr>"
  have n: "new_Payload pfx ty ident pk d = Inr ?p"
    using a by (simp add: new_Payload_def)
  have wf: "wf_payload ?p" using a by (simp add: wf_payload_def)
  have dl: "length (data ?p) \<le> 65535" using a by simp
  have "toBytes ?p = Inr (frame ?p)" using wf by (rule toBytes_frame)
  moreover have "fromBytes (frame ?p) = Inr ?p" using wf dl by (rule fromBytes_frame)
  ultimately show "\<exists>p b. new_Payload pfx ty ident pk d = Inr p \<and> toBytes p = Inr b \<and> fromBytes b = Inr p
          \<and> prefix' p = pfx \<and> type' p = ty \<and> id' p = bytes ident \<and> publicKey p = pk
          \<and> data p = d \<and> signature p = replicate 64 0"
    using n by simp
qed

text \<open>
  Claim C10. Whenever \<open>toBytes\<close> succeeds on a payload that carries the marker and
  version 1 (as every constructed payload does) and at most 65535 bytes of data,
  \<open>fromBytes\<close> accepts the result, and it accepts the result followed by any further bytes
  and returns the same payload. For a payload with fields of the frame's sizes \<open>toBytes\<close>
  does succeed and both parses return the payload itself. So bytes after offset
  \<open>143 + dataLen\<close> are ignored.
\<close>

theorem C10_trailing_bytes_ignored:
  "(marker p = MARKER \<and> version p mod 256 = 1 \<and> length (data p) \<le> 65535 \<and>
    toBytes p = Inr b \<longrightarrow>
      (\<exists>q. fromBytes b = Inr q \<and> fromBytes (b @ s) = Inr q))
   \<and> (wf_payload p \<and> length (data p) \<le> 65535 \<longrightarrow>
        (\<exists>b. toBytes p = Inr b \<and> fromBytes b = Inr p \<and> fromBytes (b @ s) = Inr p))"
proof (intro conjI impI)
  assume "marker p = MARKER \<and> version p mod 256 = 1 \<and> length (data p) \<le> 65535 \<and>
    toBytes p = Inr b"
  then have "fromBytes b = Inr (parsed b)" by (intro toBytes_accepted[of p]) simp_all
  then show "\<exists>q. fromBytes b = Inr q \<and> fromBytes (b @ s) = Inr q"
    by (simp add: fromBytes_append)
next
  assume a: "wf_payload p \<and> length (data p) \<le> 65535"
  then have "toBytes p = Inr (frame p)" "fromBytes (frame p) = Inr p"
    by (simp_all add: toBytes_frame fromBytes_frame)
  then show "\<exists>b. toBytes p = Inr b \<and> fromBytes b = Inr p \<and> fromBytes (b @ s) = Inr p"
    by (simp add: fromBytes_append)
qed

theorem C5_frame_roundtrip_witness:
  "\<exists>p b. new_Payload [0x54, 0x45, 0x53, 0x54] 1 exampleIdentifier (publicKey examplePayload)
            [0xde, 0xad, 0xbe, 0xef] = Inr p
         \<and> toBytes p = Inr b \<and> fromBytes b = Inr p \<and> p = examplePayload"
proof -
  have h: "length [0x54, 0x45, 0x53, 0x54 :: byte] = 4 \<and> (1::nat) \<le> 65535 \<and>
     length (bytes exampleIdentifier) = 33 \<and> length (publicKey examplePayload) = 33 \<and>
     length [0xde, 0xad, 0xbe, 0xef :: byte] \<le> 65535"
    by (simp add: exampleIdentifier_def examplePayload_def)
  from C5_frame_roundtrip[of "[0x54, 0x45, 0x53, 0x54]" 1 exampleIdentifier
      "publicKey examplePayload" "[0xde, 0xad, 0xbe, 0xef]"] h
  obtain p b where pb: "new_Payload [0x54, 0x45, 0x53, 0x54] 1 exampleIdentifier
      (publicKey examplePayload) [0xde, 0xad, 0xbe, 0xef] = Inr p"
      "toBytes p = Inr b" "fromBytes b = Inr p"
    by blast
  have "p = examplePayload"
    using pb(1) by (simp add: new_Payload_def exampleIdentifier_def examplePayload_def)
  with pb show ?thesis by blast
qed

theorem C10_trailing_bytes_ignored_witness:
  "\<exists>b. toBytes examplePayload = Inr b \<and> fromBytes b = Inr examplePayload
       \<and> fromBytes (b @ [0xff]) = Inr examplePayload \<and> length b = 147"
proof -
  have h: "wf_payload examplePayload \<and> length (data examplePayload) \<le> 65535"
    by (simp add: wf_payload_def examplePayload_def)
  from C10_trailing_bytes_ignored[of examplePayload _ "[0xff]"] h
  obtain b where b: "toBytes examplePayload = Inr b" "fromBytes b = Inr examplePayload"
    by blast
  have g: "marker examplePayload = MARKER \<and> version examplePayload mod 256 = 1 \<and>
           length (data examplePayload) \<le> 65535 \<and> toBytes examplePayload = Inr b"
    using b(1) by (simp add: examplePayload_def PROTOCOL_VERSION_def)
  from C10_trailing_bytes_ignored[of examplePayload b "[0xff]"] g
  obtain q where q: "fromBytes b = Inr q" "fromBytes (b @ [0xff]) = Inr q" by blast
  have "fromBytes (b @ [0xff]) = Inr examplePayload" using q b(2) by simp
  moreover have "length b = 147"
  proof -
    have "b = frame examplePayload" using b(1) h by (simp add: toBytes_frame)
    moreover have "length (frame examplePayload) = 143 + length (data examplePayload)"
      using h by (intro parsed_frame(5)) simp_all
    ultimately show ?thesis by (simp add: examplePayload_def)
  qed
  ultimately show ?thesis using b by blast
qed

section \<open>The prefix string\<close>

lemma utf8_run_ascii:
  "\<forall>b\<in>set bs. b \<le> 0x7F \<Longrightarrow> utf8_run utf8_init bs = bs"
  by (induction bs) (simp_all add: utf8_init_def utf8_step_def utf8_lead_def)

lemma stripBOM_ascii: "\<forall>b\<in>set cps. b \<le> 0x7F \<Longrightarrow> stripBOM cps = cps"
  by (cases cps) (auto simp: stripBOM_def)

lemma codeUnits_ascii: "\<forall>b\<in>set cps. b \<le> 0x7F \<Longrightarrow> concat (map codeUnits cps) = cps"
  by (induction cps) (simp_all add: codeUnits_def)

lemma TextDecoder_decode_ascii:
  assumes "\<forall>b\<in>set bs. b \<le> 0x7F"
  shows "TextDecoder_decode bs = map unat bs"
proof -
  have a: "\<forall>b\<in>set (map unat bs). b \<le> 0x7F"
    using assms by (auto simp: word_le_nat_alt)
  show ?thesis
    unfolding TextDecoder_decode_def
    by (simp only: utf8_run_ascii[OF a] stripBOM_ascii[OF a] codeUnits_ascii[OF a])
qed

lemma filter_unat_zero: "filter (\<lambda>u. u \<noteq> 0) (map unat bs) = map unat (filter (\<lambda>b. b \<noteq> (0::byte)) bs)"
  by (induction bs) (simp_all add: unat_eq_0)

lemma trim_no_interior:
  assumes "0 \<notin> set s"
  shows "rev (dropWhile (\<lambda>b. b = 0) (rev (s @ replicate k (0::byte)))) = s"
    and "filter (\<lambda>b. b \<noteq> 0) (s @ replicate k (0::byte)) = s"
proof -
  have "dropWhile (\<lambda>b. b = 0) (replicate k (0::byte) @ rev s) = dropWhile (\<lambda>b. b = 0) (rev s)"
    by (induction k) simp_all
  moreover have "dropWhile (\<lambda>b. b = 0) (rev s) = rev s"
    using assms by (cases "rev s") (auto simp: dropWhile_eq_self_iff)
  ultimately show "rev (dropWhile (\<lambda>b. b = 0) (rev (s @ replicate k (0::byte)))) = s"
    by simp
  show "filter (\<lambda>b. b \<noteq> 0) (s @ replicate k (0::byte)) = s"
    using assms by (simp add: filter_id_conv) metis
qed

text \<open>
  Claim C9, as amended. For a prefix field of ASCII bytes, \<open>getPrefix\<close> is the field read
  as ASCII with every \<open>0x00\<close> byte removed, interior ones as well as trailing ones. When
  the field has no interior \<open>0x00\<close> (it is some bytes without \<open>0x00\<close> followed by padding),
  this is the trailing trim of the specification.
\<close>

theorem C9_getPrefix_removes_every_nul:
  "(\<forall>b\<in>set (prefix' p). b \<le> 0x7F) \<longrightarrow>
     getPrefix p = map unat (filter (\<lambda>b. b \<noteq> 0) (prefix' p))
     \<and> (\<forall>s k. prefix' p = s @ replicate k 0 \<and> 0 \<notin> set s \<longrightarrow>
           getPrefix p = map unat s \<and> getPrefix p = spec_getPrefix p)"
proof (intro impI)
  assume a: "\<forall>b\<in>set (prefix' p). b \<le> 0x7F"
  have g: "getPrefix p = map unat (filter (\<lambda>b. b \<noteq> 0) (prefix' p))"
    unfolding getPrefix_def by (simp only: TextDecoder_decode_ascii[OF a] filter_unat_zero)
  have "getPrefix p = map unat s \<and> getPrefix p = spec_getPrefix p"
    if "prefix' p = s @ replicate k 0 \<and> 0 \<notin> set s" for s k
  proof -
    from that have e: "prefix' p = s @ replicate k 0" and z: "0 \<notin> set s" by simp_all
    show ?thesis
      unfolding g spec_getPrefix_def e
      by (simp only: trim_no_interior[OF z] simp_thms)
  qed
  with g show "getPrefix p = map unat (filter (\<lambda>b. b \<noteq> 0) (prefix' p))
     \<and> (\<forall>s k. prefix' p = s @ replicate k 0 \<and> 0 \<notin> set s \<longrightarrow>
           getPrefix p = map unat s \<and> getPrefix p = spec_getPrefix p)"
    by blast
qed

text \<open>
  The claim as stated fails on the field \<open>A\<close>, NUL, \<open>B\<close>, NUL: the code returns \<open>AB\<close>,
  trimming only the trailing NUL would keep the interior one.
\<close>

theorem C9_getPrefix_counterexample:
  "getPrefix interiorNulPayload = [0x41, 0x42] \<and>
   spec_getPrefix interiorNulPayload = [0x41, 0x00, 0x42] \<and>
   getPrefix interiorNulPayload \<noteq> spec_getPrefix interiorNulPayload"
  by (simp add: getPrefix_def spec_getPrefix_def interiorNulPayload_def TextDecoder_decode_ascii)

theorem C9_getPrefix_removes_every_nul_witness:
  "getPrefix interiorNulPayload = [0x41, 0x42] \<and> getPrefix examplePayload = [0x54, 0x45, 0x53, 0x54]
   \<and> getPrefix examplePayload = spec_getPrefix examplePayload"
proof -
  have h1: "\<forall>b\<in>set (prefix' interiorNulPayload). b \<le> 0x7F"
    by (simp add: interiorNulPayload_def)
  have h2: "\<forall>b\<in>set (prefix' examplePayload). b \<le> 0x7F"
    by (simp add: examplePayload_def)
  have h3: "prefix' examplePayload = [0x54, 0x45, 0x53, 0x54] @ replicate 0 0 \<and>
            0 \<notin> set [0x54, 0x45, 0x53, 0x54 :: byte]"
    by (simp add: examplePayload_def)
  have a: "getPrefix interiorNulPayload = [0x41, 0x42]"
    using C9_getPrefix_removes_every_nul[of interiorNulPayload] h1
    by (simp add: interiorNulPayload_def)
  have b: "getPrefix examplePayload = map unat [0x54, 0x45, 0x53, 0x54 :: byte] \<and>
           getPrefix examplePayload = spec_getPrefix examplePayload"
    using C9_getPrefix_removes_every_nul[of examplePayload] h2 h3 by blast
  have c: "getPrefix examplePayload = [0x54, 0x45, 0x53, 0x54]" using b by simp
  from a b c show ?thesis by blast
qed

section \<open>The block handler\<close>

lemma length_hexPairs: "length (hexPairs s) = length s div 2"
  by (induction s rule: hexPairs.induct) simp_all

lemma parsePayload_short:
  "even (length h) \<Longrightarrow> length h < 286 \<Longrightarrow> parsePayload h = Inl (Error ''Invalid payload size'')"
proof -
  assume a: "even (length h)" "length h < 286"
  then have "length (hexPairs h) < 143" by (simp add: length_hexPairs)
  then have "fromBytes (hexPairs h) = Inl (Error ''Invalid payload size'')"
    by (simp add: fromBytes_def HEADER_SIZE_def)
  then show ?thesis using a by (simp add: parsePayload_def fromHex_def hexToBytes_def)
qed

lemma processTransaction_below_143_chars:
  "length (payload tx) < 143 \<Longrightarrow> processTransaction ledger meta tx sdk = sdk"
  by (simp add: processTransaction_def HEADER_SIZE_def)

text \<open>
  Claim C2 says that a transaction whose payload is shorter than 143 bytes (286
  hexadecimal characters) is skipped before the dedup set and the parser are reached. The
  guard of the block handler compares the length of the hexadecimal string with 143, so
  it only skips strings shorter than 143 characters (the lemma above). On the sample
  transaction, whose payload has 144 characters (72 bytes), the handler records the
  transaction id in the dedup set and calls the parser, which throws; the error is
  logged. This holds for every ledger and every block.
\<close>

theorem C2_short_payload_reaches_dedup_and_parser:
  "length (payload shortTransaction) = 144 \<and>
   processTransaction ledger meta shortTransaction freshSession =
     freshSession\<lparr>knownTxIds := \<lparr>queue = [''tx1''], set' = {''tx1''}, capacity = 5000\<rparr>,
                   logged := [LogError ''Error processing transaction: Invalid payload size'']\<rparr>"
proof -
  have l: "length (payload shortTransaction) = 144" by (simp add: shortTransaction_def)
  have p: "parsePayload (payload shortTransaction) = Inl (Error ''Invalid payload size'')"
    using l by (intro parsePayload_short) simp_all
  have t: "tryAdd ''tx1'' initial_knownTxIds
           = (True, \<lparr>queue = [''tx1''], set' = {''tx1''}, capacity = 5000\<rparr>)"
    by (simp add: tryAdd_def initial_knownTxIds_def)
  have s: "take 8 (payload shortTransaction) = ''4b53504b''" "verboseData shortTransaction = Some ''tx1''"
    by (simp_all add: shortTransaction_def)
  show ?thesis
    unfolding processTransaction_def
    by (simp add: l p s HEADER_SIZE_def Let_def)
       (simp add: freshSession_def t caught_def logger_def message_def)
qed

section \<open>The decode pipeline\<close>

lemma decode_registered:
  assumes "registry (header_type header) = Some entry" "construct (cls entry) = Inr fs"
  shows "decode codecs registry header d key =
     (if requiresEncryption (cls entry) \<and> key = None
      then Inl (Error ''Encryption key is required but not provided'')
      else bindE (decryptPhase codecs \<lparr>msg_class = cls entry, msg_header = Some header, msg_fields = fs\<rparr> d key)
             (\<lambda>phase1. case phase1 of
                Inl unknown \<Rightarrow> Inr unknown
              | Inr plaintext \<Rightarrow> decodePhases codecs \<lparr>msg_class = cls entry, msg_header = Some header, msg_fields = fs\<rparr> d plaintext))"
  using assms by (simp add: decode_def create_def Let_def)

lemma catchAs_cases:
  "catchAs stage code d (ThrownObject m)
     = Inr (UnknownMessage (Some d) (Some (stage @ '' failed: '' @ m)) (Some code))"
  "catchAs stage code d ThrownNull = Inl (TypeError ''Cannot read properties of null'')"
  "catchAs stage code d ThrownUndefined = Inl (TypeError ''Cannot read properties of undefined'')"
  by (simp_all add: catchAs_def readMessage_def)

text \<open>
  As long as what is thrown is neither \<open>null\<close> nor \<open>undefined\<close>, the stages report their
  failures as the documentation says: for a registered class that can be instantiated and
  a key that is present when required, \<open>decode\<close> returns an \<open>UnknownMessage\<close> with the raw
  data and code 0 (the cipher returns no plaintext), 1 (empty plaintext), 2 (decryption
  throws), 3 (decompression throws), 4 (CBOR decoding throws) or 5 (\<open>fromPlainObject\<close>
  throws), and the instance when every stage succeeds.
\<close>

lemma decode_stage_codes:
  assumes r: "registry (header_type header) = Some entry" "construct (cls entry) = Inr fs"
  shows
   "let c = cls entry;
        inst = \<lparr>msg_class = c, msg_header = Some header, msg_fields = fs\<rparr>;
        result = decode codecs registry header d key;
        opened = (\<lambda>k. aead_open codecs k (take 24 d) (drop 24 d));
        unknown = (\<lambda>desc code. Inr (UnknownMessage (Some d) (Some desc) (Some code)))
    in (\<forall>k. requiresEncryption c \<and> key = Some k \<longrightarrow>
           (opened k = Inr None \<longrightarrow> result = unknown ''Decryption failed: invalid key'' 0)
         \<and> (opened k = Inr (Some []) \<longrightarrow>
               result = unknown ''Decryption failed: empty decrypted data'' 1)
         \<and> (\<forall>m. opened k = Inl (ThrownObject m) \<longrightarrow>
               result = unknown (''Decryption failed: '' @ m) 2))
     \<and> (\<forall>plaintext.
           (\<not> requiresEncryption c \<and> plaintext = d) \<or>
           (requiresEncryption c \<and> plaintext \<noteq> [] \<and> (\<exists>k. key = Some k \<and> opened k = Inr (Some plaintext)))
           \<longrightarrow>
           (\<forall>m. decompressZstd codecs plaintext = Inl (ThrownObject m) \<longrightarrow>
                  result = unknown (''Decompress failed: '' @ m) 3)
         \<and> (\<forall>decompressed. decompressZstd codecs plaintext = Inr decompressed \<longrightarrow>
               (\<forall>m. cborDecode codecs decompressed = Inl (ThrownObject m) \<longrightarrow>
                      result = unknown (''CBOR decode failed: '' @ m) 4)
             \<and> (\<forall>obj. cborDecode codecs decompressed = Inr obj \<longrightarrow>
                   (fromPlainObject c = None \<longrightarrow> result = Inr (Instance inst))
                 \<and> (\<forall>h. fromPlainObject c = Some h \<longrightarrow>
                       (\<forall>m. h fs obj = Inl (ThrownObject m) \<longrightarrow>
                              result = unknown (''fromPlainObject failed: '' @ m) 5)
                     \<and> (\<forall>fs'. h fs obj = Inr fs' \<longrightarrow>
                              result = Inr (Instance (inst\<lparr>msg_fields := fs'\<rparr>)))))))"
  unfolding Let_def decode_registered[of registry header entry fs codecs d key, OF r]
  by (auto simp add: decryptPhase_def decodePhases_def hydratePhase_def catchAs_cases
           split: sum.splits option.splits)

text \<open>
  When \<open>fromPlainObject\<close> throws \<open>null\<close> or \<open>undefined\<close>, the \<open>catch\<close> of phase 4 throws
  itself while it reads \<open>e.message\<close>, and the exception leaves \<open>decode\<close>. This holds for
  every registered class without encryption and all libraries, once decompression and CBOR
  decoding have succeeded.
\<close>

lemma decode_hydration_throws_nullish:
  assumes "registry (header_type header) = Some entry" "construct (cls entry) = Inr fs"
    and "\<not> requiresEncryption (cls entry)"
    and "decompressZstd codecs d = Inr z" "cborDecode codecs z = Inr obj"
    and "fromPlainObject (cls entry) = Some h"
  shows "h fs obj = Inl ThrownNull \<Longrightarrow>
           decode codecs registry header d key = Inl (TypeError ''Cannot read properties of null'')"
    and "h fs obj = Inl ThrownUndefined \<Longrightarrow>
           decode codecs registry header d key
             = Inl (TypeError ''Cannot read properties of undefined'')"
  using assms
  by (simp_all add: decode_registered[of registry header entry fs codecs d key]
        decryptPhase_def decodePhases_def hydratePhase_def catchAs_cases)

lemma toy_registered:
  "toyRegistry (header_type toyHeader) = Some \<lparr>cls = StrictNote, worker = None\<rparr>"
  "construct (cls \<lparr>cls = StrictNote, worker = None\<rparr>) = Inr []"
  "\<not> requiresEncryption (cls \<lparr>cls = StrictNote, worker = None\<rparr>)"
  "fromPlainObject (cls \<lparr>cls = StrictNote, worker = None\<rparr>)
     = Some (\<lambda>fs obj. case obj of [] \<Rightarrow> Inr obj
                     | x # r \<Rightarrow> if x = 0 then Inl ThrownNull else Inr obj)"
  by (simp_all add: toyRegistry_def register_def StrictNote_def toyHeader_def)

lemma toy_stages:
  "decompressZstd toyCodecs (0x28 # r) = Inr r"
  "cborDecode toyCodecs (x # r) = Inr (x # r)"
  by (simp_all add: toyCodecs_def)

text \<open>
  Claim C7 says that a failure of hydration is never propagated as an exception but
  returned as an \<open>UnknownMessage\<close> with code 5, as the documentation of \<open>decode\<close> promises
  for any error during the pipeline. On the registered class \<open>StrictNote\<close>, whose
  \<open>fromPlainObject\<close> rejects an object by \<open>throw null\<close>, and the data \<open>28 00 01\<close>, which
  decompresses and decodes to such an object, \<open>decode\<close> throws a \<open>TypeError\<close> instead; on
  the data \<open>28 05\<close> the same class is hydrated and returned.
\<close>

theorem C7_thrown_null_leaves_decode:
  "decode toyCodecs toyRegistry toyHeader [0x28, 0x00, 0x01] None
     = Inl (TypeError ''Cannot read properties of null'')
   \<and> decode toyCodecs toyRegistry toyHeader [0x28, 0x05] None
     = Inr (Instance \<lparr>msg_class = StrictNote, msg_header = Some toyHeader, msg_fields = [0x05]\<rparr>)"
proof
  show "decode toyCodecs toyRegistry toyHeader [0x28, 0x00, 0x01] None
     = Inl (TypeError ''Cannot read properties of null'')"
    using toy_registered toy_stages(1)[of "[0x00, 0x01]"] toy_stages(2)[of "0x00" "[0x01]"]
    by (intro decode_hydration_throws_nullish(1)[of toyRegistry toyHeader
          "\<lparr>cls = StrictNote, worker = None\<rparr>" "[]" toyCodecs "[0x28, 0x00, 0x01]"
          "[0x00, 0x01]" "[0x00, 0x01]"
          "\<lambda>fs obj. case obj of [] \<Rightarrow> Inr obj
                     | x # r \<Rightarrow> if x = 0 then Inl ThrownNull else Inr obj"])
       simp_all
  show "decode toyCodecs toyRegistry toyHeader [0x28, 0x05] None
     = Inr (Instance \<lparr>msg_class = StrictNote, msg_header = Some toyHeader, msg_fields = [0x05]\<rparr>)"
    using toy_registered toy_stages(1)[of "[0x05]"] toy_stages(2)[of "0x05" "[]"]
    by (simp add: decode_registered[of toyRegistry toyHeader "\<lparr>cls = StrictNote, worker = None\<rparr>" "[]"]
          decryptPhase_def decodePhases_def hydratePhase_def)
qed

section \<open>The private key of a session\<close>



































end
